theory Spec2Isabelle
  imports Main
begin

section \<open>Values of the program\<close>

text \<open>
  The program is \<^verbatim>\<open>src/main.py\<close>: a class \<^verbatim>\<open>Book\<close> (the spec's Record) and a class
  \<^verbatim>\<open>Library\<close> (the spec's Catalog) that keeps a list of books and mirrors it in a JSON
  file.

  A Python \<^verbatim>\<open>str\<close> is a sequence of Unicode code points, so a string is a list of
  code points here. \<open>ascii\<close> writes an ASCII literal of the source.
\<close>

type_synonym pystr = "nat list"

definition ascii :: "string \<Rightarrow> pystr" where
  "ascii cs = map of_char cs"

text \<open>
  The two status literals of the source, by their code points: the Russian for
  "in stock", transliterated \<open>v nalichii\<close> (U+0432 U+0020 U+043D U+0430 U+043B U+0438
  U+0447 U+0438 U+0438), and the Russian for "checked out", transliterated \<open>vydana\<close>
  (U+0432 U+044B U+0434 U+0430 U+043D U+0430).
\<close>

definition v_nalichii :: pystr where
  "v_nalichii = [1074, 32, 1085, 1072, 1083, 1080, 1095, 1080, 1080]"

definition vydana :: pystr where
  "vydana = [1074, 1099, 1076, 1072, 1085, 1072]"

text \<open>
  A value that passes \<^verbatim>\<open>isinstance(x, int)\<close> is an \<^verbatim>\<open>int\<close> or a \<^verbatim>\<open>bool\<close>
  (\<^verbatim>\<open>bool\<close> is a subclass of \<^verbatim>\<open>int\<close>; \<^verbatim>\<open>True == 1\<close>, \<^verbatim>\<open>False == 0\<close>). The two
  differ in \<^verbatim>\<open>str\<close> and in their JSON text, so both are kept.
\<close>

datatype pyint = PInt int | PBool bool

fun int_of :: "pyint \<Rightarrow> int" where
  "int_of (PInt i) = i"
| "int_of (PBool b) = (if b then 1 else 0)"

text \<open>
  What \<^verbatim>\<open>json.load\<close> returns. An object is an association list with the keys in the
  order of the file; \<^verbatim>\<open>json.load\<close> builds a \<^verbatim>\<open>dict\<close>, so every key occurs once. The
  payload of a float is never inspected by the program and is kept as its literal.
\<close>

datatype json =
    JNull
  | JBool bool
  | JInt int
  | JFloat pystr
  | JStr pystr
  | JList "json list"
  | JDict "(pystr \<times> json) list"

datatype error = TypeError | KeyError | ValueError | UnicodeEncodeError | IllTyped

text \<open>
  \<open>TypeError\<close>, \<open>KeyError\<close>, \<open>ValueError\<close> and \<open>UnicodeEncodeError\<close> are the Python
  exceptions. \<open>IllTyped\<close> is not an exception: it marks the one place where the source
  would go on with a \<^verbatim>\<open>Book\<close> whose field is outside its declared type
  (\<^verbatim>\<open>book_id: int, title: str, author: str, year: int, status: str\<close>), which the record
  below cannot hold. \<^verbatim>\<open>load_books\<close> never reaches it, since it calls \<^verbatim>\<open>from_dict\<close>
  only after \<^verbatim>\<open>validate_dict\<close> returned \<^verbatim>\<open>True\<close>.
\<close>

section \<open>Book\<close>

text \<open>
  \<^verbatim>\<open>self.id\<close> is the field \<open>book_id\<close> (the constructor's parameter name); \<open>id\<close> is
  the identity function of HOL.
\<close>

record book =
  book_id :: pyint
  title :: pystr
  author :: pystr
  year :: pyint
  status :: pystr

definition Book :: "pyint \<Rightarrow> pystr \<Rightarrow> pystr \<Rightarrow> pyint \<Rightarrow> pystr \<Rightarrow> book" where
  "Book i t a y s = \<lparr>book_id = i, title = t, author = a, year = y, status = s\<rparr>"

fun json_of_pyint :: "pyint \<Rightarrow> json" where
  "json_of_pyint (PInt i) = JInt i"
| "json_of_pyint (PBool b) = JBool b"

definition to_dict :: "book \<Rightarrow> json" where
  "to_dict self = JDict
     [(ascii ''id'', json_of_pyint (book_id self)),
      (ascii ''title'', JStr (title self)),
      (ascii ''author'', JStr (author self)),
      (ascii ''year'', json_of_pyint (year self)),
      (ascii ''status'', JStr (status self))]"

subsection \<open>Operators of Python used on decoded JSON\<close>

text \<open>\<^verbatim>\<open>s.startswith(k)\<close>, and \<^verbatim>\<open>k in s\<close> for two strings: \<open>k\<close> occurs in \<open>s\<close> as a
  contiguous run, tried at every position from the left.\<close>

fun starts_with :: "pystr \<Rightarrow> pystr \<Rightarrow> bool" where
  "starts_with s [] = True"
| "starts_with [] (k # ks) = False"
| "starts_with (c # cs) (k # ks) = (c = k \<and> starts_with cs ks)"

fun str_in :: "pystr \<Rightarrow> pystr \<Rightarrow> bool" where
  "str_in k [] = (k = [])"
| "str_in k (c # cs) = (starts_with (c # cs) k \<or> str_in k cs)"

text \<open>
  \<^verbatim>\<open>field in data\<close> for a string \<open>field\<close>: key membership on a dict, element
  membership on a list, substring on a string, and
  \<^verbatim>\<open>TypeError: argument of type ... is not iterable\<close> on anything else.
\<close>

fun py_in :: "pystr \<Rightarrow> json \<Rightarrow> error + bool" where
  "py_in field (JDict d) = Inr (map_of d field \<noteq> None)"
| "py_in field (JList xs) = Inr (JStr field \<in> set xs)"
| "py_in field (JStr s) = Inr (str_in field s)"
| "py_in field v = Inl TypeError"

text \<open>
  \<^verbatim>\<open>data[field]\<close> for a string \<open>field\<close>: the value of the key on a dict
  (\<^verbatim>\<open>KeyError\<close> when absent), and \<^verbatim>\<open>TypeError\<close> on a list or a string (their indices
  must be integers) and on anything else (not subscriptable).
\<close>

fun py_getitem :: "json \<Rightarrow> pystr \<Rightarrow> error + json" where
  "py_getitem (JDict d) field = (case map_of d field of None \<Rightarrow> Inl KeyError | Some v \<Rightarrow> Inr v)"
| "py_getitem v field = Inl TypeError"

datatype pytype = TInt | TStr

fun isinstance :: "json \<Rightarrow> pytype \<Rightarrow> bool" where
  "isinstance (JInt i) TInt = True"
| "isinstance (JBool b) TInt = True"
| "isinstance (JStr s) TStr = True"
| "isinstance v ty = False"

subsection \<open>from\_dict and validate\_dict\<close>

fun as_int :: "json \<Rightarrow> error + pyint" where
  "as_int (JInt i) = Inr (PInt i)"
| "as_int (JBool b) = Inr (PBool b)"
| "as_int v = Inl IllTyped"

fun as_str :: "json \<Rightarrow> error + pystr" where
  "as_str (JStr s) = Inr s"
| "as_str v = Inl IllTyped"

text \<open>Sequencing of steps that may raise: the first error ends the computation.\<close>

definition and_then :: "error + 'a \<Rightarrow> ('a \<Rightarrow> error + 'b) \<Rightarrow> error + 'b" where
  "and_then m f = (case m of Inl e \<Rightarrow> Inl e | Inr x \<Rightarrow> f x)"

text \<open>
  \<^verbatim>\<open>Book(book_id=data["id"], title=data["title"], author=data["author"],
  year=data["year"], status=data["status"])\<close>: the five subscripts are evaluated in
  this order, then the constructor runs.
\<close>

definition from_dict :: "json \<Rightarrow> error + book" where
  "from_dict data =
     and_then (py_getitem data (ascii ''id'')) (\<lambda>i.
     and_then (py_getitem data (ascii ''title'')) (\<lambda>t.
     and_then (py_getitem data (ascii ''author'')) (\<lambda>a.
     and_then (py_getitem data (ascii ''year'')) (\<lambda>y.
     and_then (py_getitem data (ascii ''status'')) (\<lambda>s.
     and_then (as_int i) (\<lambda>i'.
     and_then (as_str t) (\<lambda>t'.
     and_then (as_str a) (\<lambda>a'.
     and_then (as_int y) (\<lambda>y'.
     and_then (as_str s) (\<lambda>s'.
       Inr (Book i' t' a' y' s')))))))))))"

definition required_fields :: "(pystr \<times> pytype) list" where
  "required_fields =
     [(ascii ''id'', TInt), (ascii ''title'', TStr), (ascii ''author'', TStr),
      (ascii ''year'', TInt), (ascii ''status'', TStr)]"

definition valid_statuses :: "pystr list" where
  "valid_statuses = [v_nalichii, vydana]"

text \<open>
  The loop of \<^verbatim>\<open>validate_dict\<close> over \<^verbatim>\<open>required_fields.items()\<close>:
  \<^verbatim>\<open>if field not in data or not isinstance(data[field], field_type): return False\<close>.
  \<open>Inr False\<close> is the early \<^verbatim>\<open>return False\<close>, \<open>Inr True\<close> is the loop running to its
  end.
\<close>

fun check_fields :: "(pystr \<times> pytype) list \<Rightarrow> json \<Rightarrow> error + bool" where
  "check_fields [] data = Inr True"
| "check_fields ((field, field_type) # rest) data =
     and_then (py_in field data) (\<lambda>present.
       if \<not> present then Inr False
       else and_then (py_getitem data field) (\<lambda>v.
         if \<not> isinstance v field_type then Inr False
         else check_fields rest data))"

text \<open>After the loop \<^verbatim>\<open>data["status"]\<close> is a string; \<^verbatim>\<open>not in valid_statuses\<close> is
  membership in a set of two strings.\<close>

definition validate_dict :: "json \<Rightarrow> error + bool" where
  "validate_dict data =
     and_then (check_fields required_fields data) (\<lambda>ok.
       if \<not> ok then Inr False
       else and_then (py_getitem data (ascii ''status'')) (\<lambda>s.
         if s \<notin> JStr ` set valid_statuses then Inr False else Inr True))"

section \<open>What the program uses of Python's library\<close>

text \<open>
  These functions are not code of the repository. They are written after the behaviour
  of CPython 3.11 and its \<^verbatim>\<open>json\<close> module, as far as the program depends on it.
\<close>

subsection \<open>Integers as text\<close>

text \<open>
  Converting an \<^verbatim>\<open>int\<close> to decimal text (\<^verbatim>\<open>str(n)\<close>, an f-string, \<^verbatim>\<open>json.dump\<close>) or
  decimal text to an \<^verbatim>\<open>int\<close> (\<^verbatim>\<open>json.load\<close>) raises \<^verbatim>\<open>ValueError\<close> when the number
  has more digits, the sign not counted, than \<^verbatim>\<open>sys.get_int_max_str_digits()\<close>, which
  is 4300 unless the interpreter is configured otherwise.
\<close>

definition int_max_str_digits :: nat where
  "int_max_str_digits = 4300"

fun digits :: "nat \<Rightarrow> pystr" where
  "digits n = (if n < 10 then [48 + n] else digits (n div 10) @ [48 + n mod 10])"

definition within_limit :: "int \<Rightarrow> bool" where
  "within_limit i \<longleftrightarrow> length (digits (nat \<bar>i\<bar>)) \<le> int_max_str_digits"

text \<open>Whether \<^verbatim>\<open>str(n)\<close>, or \<^verbatim>\<open>n\<close> interpolated in an f-string, goes through.\<close>

fun formats :: "pyint \<Rightarrow> bool" where
  "formats (PInt i) = within_limit i"
| "formats (PBool b) = True"

text \<open>\<^verbatim>\<open>str(n)\<close> of an \<^verbatim>\<open>int\<close> (decimal, \<^verbatim>\<open>-\<close> in front of a negative number) or a
  \<^verbatim>\<open>bool\<close>.\<close>

fun py_str :: "pyint \<Rightarrow> error + pystr" where
  "py_str (PInt i) =
     (if \<not> within_limit i then Inl ValueError
      else Inr (if i < 0 then 45 # digits (nat (- i)) else digits (nat i)))"
| "py_str (PBool b) = Inr (if b then ascii ''True'' else ascii ''False'')"

subsection \<open>Writing and reading JSON\<close>

text \<open>
  The file is opened with \<^verbatim>\<open>encoding="utf-8"\<close>, so writing text that holds a surrogate
  code point (U+D800 to U+DFFF) raises \<^verbatim>\<open>UnicodeEncodeError\<close>; with
  \<^verbatim>\<open>ensure_ascii=False\<close> \<^verbatim>\<open>json.dump\<close> writes such a string as it is.
\<close>

definition encodable :: "pystr \<Rightarrow> bool" where
  "encodable s \<longleftrightarrow> list_all (\<lambda>c. c < 55296 \<or> 57343 < c) s"

text \<open>
  \<^verbatim>\<open>json.dump(value, file, ensure_ascii=False, indent=4)\<close> writes the document piece
  by piece in document order. \<open>dump_error\<close> is the exception of the first piece that
  cannot be written: \<^verbatim>\<open>ValueError\<close> for an integer over the digit limit,
  \<^verbatim>\<open>UnicodeEncodeError\<close> for a key or a string that is not encodable; \<open>None\<close> when
  the whole document is written.
\<close>

fun dump_error :: "json \<Rightarrow> error option"
  and dump_error_list :: "json list \<Rightarrow> error option"
  and dump_error_dict :: "(pystr \<times> json) list \<Rightarrow> error option" where
  "dump_error JNull = None"
| "dump_error (JBool b) = None"
| "dump_error (JInt i) = (if within_limit i then None else Some ValueError)"
| "dump_error (JFloat f) = None"
| "dump_error (JStr s) = (if encodable s then None else Some UnicodeEncodeError)"
| "dump_error (JList xs) = dump_error_list xs"
| "dump_error (JDict d) = dump_error_dict d"
| "dump_error_list [] = None"
| "dump_error_list (x # xs) =
     (case dump_error x of Some e \<Rightarrow> Some e | None \<Rightarrow> dump_error_list xs)"
| "dump_error_dict [] = None"
| "dump_error_dict ((k, v) # d) =
     (if \<not> encodable k then Some UnicodeEncodeError
      else case dump_error v of Some e \<Rightarrow> Some e | None \<Rightarrow> dump_error_dict d)"

text \<open>Whether a JSON document holds an integer over the digit limit.\<close>

fun big_int :: "json \<Rightarrow> bool"
  and big_int_list :: "json list \<Rightarrow> bool"
  and big_int_dict :: "(pystr \<times> json) list \<Rightarrow> bool" where
  "big_int JNull = False"
| "big_int (JBool b) = False"
| "big_int (JInt i) = (\<not> within_limit i)"
| "big_int (JFloat f) = False"
| "big_int (JStr s) = False"
| "big_int (JList xs) = big_int_list xs"
| "big_int (JDict d) = big_int_dict d"
| "big_int_list [] = False"
| "big_int_list (x # xs) = (big_int x \<or> big_int_list xs)"
| "big_int_dict [] = False"
| "big_int_dict ((k, v) # d) = (big_int v \<or> big_int_dict d)"

text \<open>
  The state of the file that \<^verbatim>\<open>self.data_file\<close> names: no file
  (\<^verbatim>\<open>open\<close> raises \<^verbatim>\<open>FileNotFoundError\<close>), a file whose text is not JSON (\<^verbatim>\<open>json.load\<close>
  raises \<^verbatim>\<open>json.JSONDecodeError\<close>), or a file whose text is the JSON document of a
  value. Two things are taken from the library without proof here, since the text of
  the file is not modelled: a document that \<^verbatim>\<open>json.dump\<close> wrote completely is read back
  by \<^verbatim>\<open>json.load\<close> as the value that was written (for the values the program writes:
  lists of objects of integers, booleans and strings), and a document that
  \<^verbatim>\<open>json.dump\<close> left unfinished is not JSON. Outside the model: failures of the
  operating system (permissions, a full disk), bytes that are not UTF-8, and a document
  nested deeper than the interpreter's recursion limit.
\<close>

datatype backend = Missing | Unparseable | Content json

text \<open>
  \<^verbatim>\<open>json.load\<close> on a document: the value, or \<^verbatim>\<open>ValueError\<close> (which is not a
  \<^verbatim>\<open>JSONDecodeError\<close>) when an integer of the document is over the digit limit.
\<close>

definition json_load :: "json \<Rightarrow> error + json" where
  "json_load doc = (if big_int doc then Inl ValueError else Inr doc)"

subsection \<open>Lower case\<close>

text \<open>
  \<^verbatim>\<open>str.lower\<close> follows the Unicode tables. \<open>search_books\<close> below takes it as the
  parameter \<open>lower\<close> and assumes nothing about it. \<open>py_lower\<close> is \<^verbatim>\<open>str.lower\<close> on text
  made of ASCII characters, the Greek letters U+0391 to U+03A9 and U+03B1 to U+03C9,
  and the Cyrillic letters U+0410 to U+044F; on other text it is not \<^verbatim>\<open>str.lower\<close>.
  A capital sigma (U+03A3) becomes the final sigma (U+03C2) when a cased letter comes
  before it and none after it, characters that case ignores (\<^verbatim>\<open>' . : ^ `\<close>) skipped on
  both sides, and the small sigma (U+03C3) otherwise.
\<close>

definition lower_char :: "nat \<Rightarrow> nat" where
  "lower_char c =
     (if 65 \<le> c \<and> c \<le> 90 then c + 32
      else if 913 \<le> c \<and> c \<le> 937 \<and> c \<noteq> 930 then c + 32
      else if 1040 \<le> c \<and> c \<le> 1071 then c + 32
      else c)"

definition cased :: "nat \<Rightarrow> bool" where
  "cased c \<longleftrightarrow>
     (65 \<le> c \<and> c \<le> 90) \<or> (97 \<le> c \<and> c \<le> 122) \<or>
     (913 \<le> c \<and> c \<le> 937 \<and> c \<noteq> 930) \<or> (945 \<le> c \<and> c \<le> 969) \<or>
     (1040 \<le> c \<and> c \<le> 1103)"

definition case_ignorable :: "nat \<Rightarrow> bool" where
  "case_ignorable c \<longleftrightarrow> c \<in> set [39, 46, 58, 94, 96]"

text \<open>Whether the first character that case does not ignore is a cased letter.\<close>

fun cased_next :: "pystr \<Rightarrow> bool" where
  "cased_next [] = False"
| "cased_next (c # cs) = (if case_ignorable c then cased_next cs else cased c)"

text \<open>\<open>passed\<close> is the text already passed, nearest character first.\<close>

fun lower_from :: "pystr \<Rightarrow> pystr \<Rightarrow> pystr" where
  "lower_from passed [] = []"
| "lower_from passed (c # cs) =
     (if c = 931
      then (if cased_next passed \<and> \<not> cased_next cs then 962 else 963)
      else lower_char c) # lower_from (c # passed) cs"

definition py_lower :: "pystr \<Rightarrow> pystr" where
  "py_lower s = lower_from [] s"

section \<open>Library\<close>

text \<open>
  One constructor for each \<^verbatim>\<open>print\<close> of the two classes, with the values it
  interpolates. The wording of the messages is presentation.
\<close>

datatype msg =
    BadBookData json
  | ReadError
  | Added pystr pyint
  | Deleted pyint
  | NotFound pyint
  | NothingFound
  | LibraryEmpty
  | BookLine book
  | StatusChanged pyint pystr
  | BadStatus

text \<open>
  Building the text of a message raises \<^verbatim>\<open>ValueError\<close> when it interpolates an
  integer over the digit limit; then nothing is printed. What the terminal does with
  the text (its encoding is not fixed by the program) is outside the model.
\<close>

fun msg_error :: "msg \<Rightarrow> error option" where
  "msg_error (BadBookData raw) = (if big_int raw then Some ValueError else None)"
| "msg_error (Added ttl bid) = (if formats bid then None else Some ValueError)"
| "msg_error (Deleted bid) = (if formats bid then None else Some ValueError)"
| "msg_error (NotFound bid) = (if formats bid then None else Some ValueError)"
| "msg_error (BookLine b) =
     (if formats (book_id b) \<and> formats (year b) then None else Some ValueError)"
| "msg_error (StatusChanged bid s) = (if formats bid then None else Some ValueError)"
| "msg_error m = None"

text \<open>
  \<open>data_file\<close> is the state of the file that \<^verbatim>\<open>self.data_file\<close> names, \<open>printed\<close> is
  everything printed so far, oldest first.
\<close>

record library =
  books :: "book list"
  data_file :: backend
  printed :: "msg list"

text \<open>
  A method that changes the library returns the library after the call together with
  its outcome: \<open>Inr\<close> the value it returns, or \<open>Inl\<close> the exception that leaves it.
  What the method did before the exception stays done.
\<close>

type_synonym 'a outcome = "(error + 'a) \<times> library"

definition then_do :: "'a outcome \<Rightarrow> ('a \<Rightarrow> library \<Rightarrow> 'b outcome) \<Rightarrow> 'b outcome" where
  "then_do m f = (case m of (Inl e, self) \<Rightarrow> (Inl e, self) | (Inr x, self) \<Rightarrow> f x self)"

definition print :: "msg \<Rightarrow> library \<Rightarrow> unit outcome" where
  "print m self =
     (case msg_error m of
        Some e \<Rightarrow> (Inl e, self)
      | None \<Rightarrow> (Inr (), self\<lparr>printed := printed self @ [m]\<rparr>))"

subsection \<open>load\_books\<close>

text \<open>
  \<^verbatim>\<open>for raw_book in data\<close>: the elements of a list, the keys of a dict, the characters
  of a string; anything else is not iterable.
\<close>

fun py_iter :: "json \<Rightarrow> error + json list" where
  "py_iter (JList xs) = Inr xs"
| "py_iter (JDict d) = Inr (map (\<lambda>kv. JStr (fst kv)) d)"
| "py_iter (JStr s) = Inr (map (\<lambda>c. JStr [c]) s)"
| "py_iter v = Inl TypeError"

text \<open>
  The body of the loop, with the list \<^verbatim>\<open>books\<close> built so far and what was printed so
  far. An exception leaves the loop and the function; what was printed stays printed.
\<close>

fun load_loop :: "json list \<Rightarrow> book list \<Rightarrow> msg list \<Rightarrow> msg list \<times> (error + book list)" where
  "load_loop [] bs out = (out, Inr bs)"
| "load_loop (raw_book # rest) bs out =
     (case validate_dict raw_book of
        Inl e \<Rightarrow> (out, Inl e)
      | Inr True \<Rightarrow>
          (case from_dict raw_book of
             Inl e \<Rightarrow> (out, Inl e)
           | Inr b \<Rightarrow> load_loop rest (bs @ [b]) out)
      | Inr False \<Rightarrow>
          (case msg_error (BadBookData raw_book) of
             Some e \<Rightarrow> (out, Inl e)
           | None \<Rightarrow> load_loop rest bs (out @ [BadBookData raw_book])))"

text \<open>
  The two \<^verbatim>\<open>except\<close> clauses catch \<^verbatim>\<open>FileNotFoundError\<close> and
  \<^verbatim>\<open>json.JSONDecodeError\<close> only; a \<^verbatim>\<open>ValueError\<close> of \<^verbatim>\<open>json.load\<close> and a
  \<^verbatim>\<open>TypeError\<close> raised inside the \<^verbatim>\<open>try\<close> leave \<^verbatim>\<open>load_books\<close>.
\<close>

fun load_books :: "backend \<Rightarrow> msg list \<times> (error + book list)" where
  "load_books Missing = ([], Inr [])"
| "load_books Unparseable = ([ReadError], Inr [])"
| "load_books (Content doc) =
     (case json_load doc of
        Inl e \<Rightarrow> ([], Inl e)
      | Inr data \<Rightarrow>
          (case py_iter data of
             Inl e \<Rightarrow> ([], Inl e)
           | Inr entries \<Rightarrow> load_loop entries [] []))"

text \<open>\<^verbatim>\<open>Library(data_file)\<close>, the constructor.\<close>

definition Library :: "backend \<Rightarrow> error + library" where
  "Library f =
     (case load_books f of
        (out, Inl e) \<Rightarrow> Inl e
      | (out, Inr bs) \<Rightarrow> Inr \<lparr>books = bs, data_file = f, printed = out\<rparr>)"

subsection \<open>The operations\<close>

text \<open>
  \<^verbatim>\<open>_save_books\<close> (an Isabelle name cannot start with an underscore).
  \<^verbatim>\<open>open(self.data_file, "w")\<close> empties the file, then \<^verbatim>\<open>json.dump\<close> writes the list
  of the \<^verbatim>\<open>to_dict\<close> of every book. When a piece cannot be written the exception leaves
  \<^verbatim>\<open>_save_books\<close> and the file holds an unfinished document.
\<close>

definition save_books :: "library \<Rightarrow> unit outcome" where
  "save_books self =
     (case dump_error (JList (map to_dict (books self))) of
        Some e \<Rightarrow> (Inl e, self\<lparr>data_file := Unparseable\<rparr>)
      | None \<Rightarrow> (Inr (), self\<lparr>data_file := Content (JList (map to_dict (books self)))\<rparr>))"

text \<open>
  \<^verbatim>\<open>max(xs, default=d)\<close>: the default on an empty list, otherwise the first of the
  largest elements (a later element replaces the current one only when it is greater).
\<close>

fun max_from :: "pyint \<Rightarrow> pyint list \<Rightarrow> pyint" where
  "max_from m [] = m"
| "max_from m (x # xs) = max_from (if int_of m < int_of x then x else m) xs"

fun py_max :: "pyint list \<Rightarrow> pyint \<Rightarrow> pyint" where
  "py_max [] d = d"
| "py_max (x # xs) d = max_from x xs"

text \<open>
  \<open>new_id\<close> is \<^verbatim>\<open>max([book.id for book in self.books], default=0) + 1\<close>, an
  \<^verbatim>\<open>int\<close> also when the largest id is a \<^verbatim>\<open>bool\<close>.
  \<^verbatim>\<open>add_book\<close> appends the new book, then saves, then prints, then returns the book:
  an exception of \<^verbatim>\<open>_save_books\<close> leaves \<^verbatim>\<open>add_book\<close> after the append, with nothing
  printed and nothing returned.
\<close>

definition new_id :: "library \<Rightarrow> pyint" where
  "new_id self = PInt (int_of (py_max (map book_id (books self)) (PInt 0)) + 1)"

definition add_book :: "pystr \<Rightarrow> pystr \<Rightarrow> pyint \<Rightarrow> library \<Rightarrow> book outcome" where
  "add_book ttl auth yr self =
     (let bid = new_id self;
          new_book = Book bid ttl auth yr v_nalichii;
          self1 = self\<lparr>books := books self @ [new_book]\<rparr>
      in then_do (save_books self1) (\<lambda>u self2.
         then_do (print (Added ttl bid) self2) (\<lambda>u self3.
           (Inr new_book, self3))))"

text \<open>
  \<^verbatim>\<open>next((book for book in self.books if book.id == book_id), None)\<close>; \<^verbatim>\<open>==\<close>
  compares the numbers.
\<close>

fun next_with_id :: "pyint \<Rightarrow> book list \<Rightarrow> book option" where
  "next_with_id bid [] = None"
| "next_with_id bid (b # bs) =
     (if int_of (book_id b) = int_of bid then Some b else next_with_id bid bs)"

definition find_book_by_id :: "pyint \<Rightarrow> library \<Rightarrow> book option" where
  "find_book_by_id bid self = next_with_id bid (books self)"

text \<open>
  A \<^verbatim>\<open>Book\<close> defines neither \<^verbatim>\<open>__bool__\<close> nor \<^verbatim>\<open>__eq__\<close>: \<^verbatim>\<open>if book\<close> asks whether
  a book was found, and \<^verbatim>\<open>self.books.remove(book)\<close> removes the found object itself.
  \<open>remove1\<close> removes the first element equal to it, which is that object (lemma
  \<open>remove1_found\<close> below).
\<close>

definition delete_book :: "pyint \<Rightarrow> library \<Rightarrow> unit outcome" where
  "delete_book bid self =
     (case find_book_by_id bid self of
        Some b \<Rightarrow>
          then_do (save_books (self\<lparr>books := remove1 b (books self)\<rparr>)) (\<lambda>u self1.
            print (Deleted bid) self1)
      | None \<Rightarrow> print (NotFound bid) self)"

text \<open>\<^verbatim>\<open>books or self.books\<close>: the argument unless it is \<^verbatim>\<open>None\<close> or empty.\<close>

fun books_or :: "book list option \<Rightarrow> book list \<Rightarrow> book list" where
  "books_or None d = d"
| "books_or (Some []) d = d"
| "books_or (Some (b # bs)) d = b # bs"

definition find_books :: "book list option \<Rightarrow> library \<Rightarrow> book list option" where
  "find_books arg self =
     (let bs = books_or arg (books self) in if bs = [] then None else Some bs)"



text \<open>
  The condition of the list comprehension of \<^verbatim>\<open>search_books\<close> for one book:
  \<^verbatim>\<open>or\<close> evaluates \<^verbatim>\<open>str(book.year)\<close> only when neither the title nor the author
  matched. \<^verbatim>\<open>str.lower\<close> is the parameter \<open>lower\<close>.
\<close>

definition matches :: "(pystr \<Rightarrow> pystr) \<Rightarrow> pystr \<Rightarrow> book \<Rightarrow> error + bool" where
  "matches lower keyword b =
     (if str_in (lower keyword) (lower (title b)) then Inr True
      else if str_in (lower keyword) (lower (author b)) then Inr True
      else and_then (py_str (year b)) (\<lambda>s. Inr (s = keyword)))"

text \<open>The list comprehension: the books in order; an exception of the condition ends
  it.\<close>

fun search_results :: "(pystr \<Rightarrow> pystr) \<Rightarrow> pystr \<Rightarrow> book list \<Rightarrow> error + book list" where
  "search_results lower keyword [] = Inr []"
| "search_results lower keyword (b # bs) =
     and_then (matches lower keyword b) (\<lambda>m.
     and_then (search_results lower keyword bs) (\<lambda>rest.
       Inr (if m then b # rest else rest)))"


text \<open>
  \<^verbatim>\<open>book.status = new_status\<close> assigns to the object that \<^verbatim>\<open>find_book_by_id\<close>
  returned, the first book of the list with that id; the list holds the same object.
\<close>

fun set_status :: "pyint \<Rightarrow> pystr \<Rightarrow> book list \<Rightarrow> book list" where
  "set_status bid s [] = []"
| "set_status bid s (b # bs) =
     (if int_of (book_id b) = int_of bid then b\<lparr>status := s\<rparr> # bs
      else b # set_status bid s bs)"

definition update_status :: "pyint \<Rightarrow> pystr \<Rightarrow> library \<Rightarrow> unit outcome" where
  "update_status bid new_status self =
     (case find_book_by_id bid self of
        Some b \<Rightarrow>
          if new_status \<in> set [v_nalichii, vydana]
          then then_do (save_books (self\<lparr>books := set_status bid new_status (books self)\<rparr>))
                 (\<lambda>u self1. print (StatusChanged bid new_status) self1)
          else print BadStatus self
      | None \<Rightarrow> print (NotFound bid) self)"

text \<open>
  \<^verbatim>\<open>main\<close>, the menu loop on the terminal, calls these operations and is not
  modelled.
\<close>

section \<open>Sequences of calls and the invariants of the specification\<close>

text \<open>
  A sequence of \<^verbatim>\<open>add_book\<close> and \<^verbatim>\<open>delete_book\<close> calls on one library. \<open>run\<close>
  returns the books that the \<^verbatim>\<open>add_book\<close> calls returned, in the order of the calls,
  and the library after the last call. A call that raises returns nothing; the sequence
  goes on with the library as the call left it, as it does for a caller that handles
  the exception (a caller that stops there has run a shorter sequence).
\<close>

datatype op = Add pystr pystr pyint | Delete pyint

fun run :: "op list \<Rightarrow> library \<Rightarrow> book list \<times> library" where
  "run [] self = ([], self)"
| "run (Add ttl auth yr # ops) self =
     (case add_book ttl auth yr self of
        (Inr b, self1) \<Rightarrow> (case run ops self1 of (bs, self2) \<Rightarrow> (b # bs, self2))
      | (Inl e, self1) \<Rightarrow> run ops self1)"
| "run (Delete bid # ops) self = run ops (snd (delete_book bid self))"

definition assigned_ids :: "op list \<Rightarrow> library \<Rightarrow> int list" where
  "assigned_ids ops self = map (\<lambda>b. int_of (book_id b)) (fst (run ops self))"

text \<open>
  No \<^verbatim>\<open>delete_book\<close> of the sequence is called with the id that the latest
  \<^verbatim>\<open>add_book\<close> before it returned; \<open>latest\<close> is that id, \<open>None\<close> before the first
  \<^verbatim>\<open>add_book\<close> that returns.
\<close>

fun spares_latest :: "int option \<Rightarrow> op list \<Rightarrow> library \<Rightarrow> bool" where
  "spares_latest latest [] self = True"
| "spares_latest latest (Add ttl auth yr # ops) self =
     (case add_book ttl auth yr self of
        (Inr b, self1) \<Rightarrow> spares_latest (Some (int_of (book_id b))) ops self1
      | (Inl e, self1) \<Rightarrow> spares_latest latest ops self1)"
| "spares_latest latest (Delete bid # ops) self =
     (latest \<noteq> Some (int_of bid) \<and> spares_latest latest ops (snd (delete_book bid self)))"

text \<open>
  The Record validation rule as the data model of the specification words it: \<^verbatim>\<open>id\<close> a
  positive integer, \<^verbatim>\<open>title\<close> and \<^verbatim>\<open>author\<close> non-empty text, \<^verbatim>\<open>year\<close> an integer,
  \<^verbatim>\<open>status\<close> one of the two permitted values; and the invariant of the catalog built
  on it.
\<close>

definition spec_record_rule :: "book \<Rightarrow> bool" where
  "spec_record_rule b \<longleftrightarrow>
     0 < int_of (book_id b) \<and> title b \<noteq> [] \<and> author b \<noteq> [] \<and>
     (status b = v_nalichii \<or> status b = vydana)"

definition unique_ids :: "book list \<Rightarrow> bool" where
  "unique_ids bs \<longleftrightarrow> distinct (map (\<lambda>b. int_of (book_id b)) bs)"

definition spec_catalog_invariant :: "book list \<Rightarrow> bool" where
  "spec_catalog_invariant bs \<longleftrightarrow> list_all spec_record_rule bs \<and> unique_ids bs"

text \<open>
  The rule that the program checks: a book passes when \<^verbatim>\<open>validate_dict\<close> accepts its
  serialised form.
\<close>

definition passes_validate_dict :: "book \<Rightarrow> bool" where
  "passes_validate_dict b \<longleftrightarrow> validate_dict (to_dict b) = Inr True"

definition positive_ids :: "book list \<Rightarrow> bool" where
  "positive_ids bs \<longleftrightarrow> list_all (\<lambda>b. 0 < int_of (book_id b)) bs"

text \<open>The books of the collection whose id is \<open>bid\<close>, in collection order.\<close>

definition with_id :: "pyint \<Rightarrow> book list \<Rightarrow> book list" where
  "with_id bid bs = [b \<leftarrow> bs. int_of (book_id b) = int_of bid]"

text \<open>
  A book that \<^verbatim>\<open>_save_books\<close> can write: its id and year are within the digit limit and
  its three texts are encodable.
\<close>

definition storable :: "book \<Rightarrow> bool" where
  "storable b \<longleftrightarrow>
     formats (book_id b) \<and> encodable (title b) \<and> encodable (author b) \<and>
     formats (year b) \<and> encodable (status b)"





declare digits.simps [simp del]

section \<open>Facts about the Python operators and the Record\<close>




lemma getitem_to_dict:
  "py_getitem (to_dict b) (ascii ''id'') = Inr (json_of_pyint (book_id b))"
  "py_getitem (to_dict b) (ascii ''title'') = Inr (JStr (title b))"
  "py_getitem (to_dict b) (ascii ''author'') = Inr (JStr (author b))"
  "py_getitem (to_dict b) (ascii ''year'') = Inr (json_of_pyint (year b))"
  "py_getitem (to_dict b) (ascii ''status'') = Inr (JStr (status b))"
  by (simp_all add: to_dict_def ascii_def)

lemma as_int_json_of_pyint: "as_int (json_of_pyint i) = Inr i"
  by (cases i) simp_all

lemma from_dict_to_dict: "from_dict (to_dict b) = Inr b"
  by (simp add: from_dict_def getitem_to_dict and_then_def as_int_json_of_pyint Book_def)

lemma isinstance_json_of_pyint: "isinstance (json_of_pyint i) TInt"
  by (cases i) simp_all

lemma in_to_dict:
  "py_in (ascii ''id'') (to_dict b) = Inr True"
  "py_in (ascii ''title'') (to_dict b) = Inr True"
  "py_in (ascii ''author'') (to_dict b) = Inr True"
  "py_in (ascii ''year'') (to_dict b) = Inr True"
  "py_in (ascii ''status'') (to_dict b) = Inr True"
  by (simp_all add: to_dict_def ascii_def)

lemma check_fields_to_dict: "check_fields required_fields (to_dict b) = Inr True"
  by (simp add: required_fields_def in_to_dict getitem_to_dict and_then_def isinstance_json_of_pyint)

lemma validate_dict_to_dict:
  "validate_dict (to_dict b) = Inr (status b \<in> set valid_statuses)"
  by (auto simp add: validate_dict_def check_fields_to_dict getitem_to_dict and_then_def)


lemma isinstance_TInt: "isinstance v TInt \<Longrightarrow> \<exists>i. v = json_of_pyint i"
  by (cases v) (auto intro: json_of_pyint.simps [symmetric])

lemma isinstance_TStr: "isinstance v TStr \<Longrightarrow> \<exists>s. v = JStr s"
  by (cases v) auto

lemma check_field_dict:
  "check_fields ((f, ty) # rest) (JDict d) =
     (case map_of d f of
        None \<Rightarrow> Inr False
      | Some v \<Rightarrow> if isinstance v ty then check_fields rest (JDict d) else Inr False)"
  by (simp add: and_then_def split: option.splits)

lemma check_fields_dict_total: "\<exists>r. check_fields fs (JDict d) = Inr r"
proof (induction fs)
  case Nil
  have "check_fields [] (JDict d) = Inr True" by simp
  then show ?case by blast
next
  case (Cons p fs)
  obtain f ty where p: "p = (f, ty)" by (cases p)
  from Cons.IH obtain r where r: "check_fields fs (JDict d) = Inr r" by blast
  show ?case
  proof (cases "map_of d f")
    case None
    then have "check_fields (p # fs) (JDict d) = Inr False"
      unfolding p check_field_dict by simp
    then show ?thesis by blast
  next
    case (Some v)
    then have "check_fields (p # fs) (JDict d) = Inr (isinstance v ty \<and> r)"
      unfolding p check_field_dict using r by simp
    then show ?thesis by blast
  qed
qed

lemma check_fields_non_dict:
  "\<forall>d. raw \<noteq> JDict d \<Longrightarrow> check_fields ((f, ty) # rest) raw \<noteq> Inr True"
  by (cases raw) (auto simp: and_then_def)

lemma check_fields_True:
  "check_fields fs (JDict d) = Inr True \<Longrightarrow> (f, ty) \<in> set fs \<Longrightarrow>
     \<exists>v. map_of d f = Some v \<and> isinstance v ty"
proof (induction fs)
  case Nil
  then show ?case by simp
next
  case (Cons p fs)
  obtain g tg where p: "p = (g, tg)" by (cases p)
  from Cons.prems(1) obtain w where w: "map_of d g = Some w" "isinstance w tg"
    and rest: "check_fields fs (JDict d) = Inr True"
    unfolding p check_field_dict by (auto split: option.splits if_splits)
  show ?case
  proof (cases "(f, ty) = (g, tg)")
    case True
    with w show ?thesis by auto
  next
    case False
    with Cons.prems(2) p have "(f, ty) \<in> set fs" by auto
    then show ?thesis using Cons.IH rest by blast
  qed
qed

lemma validate_dict_total: "\<exists>r. validate_dict (JDict d) = Inr r"
proof -
  obtain r where r: "check_fields required_fields (JDict d) = Inr r"
    using check_fields_dict_total by blast
  show ?thesis
  proof (cases r)
    case False
    with r have "validate_dict (JDict d) = Inr False"
      by (simp add: validate_dict_def and_then_def)
    then show ?thesis by blast
  next
    case True
    with r have c: "check_fields required_fields (JDict d) = Inr True" by simp
    have "(ascii ''status'', TStr) \<in> set required_fields"
      by (simp add: required_fields_def)
    then obtain v where "map_of d (ascii ''status'') = Some v"
      using check_fields_True [OF c] by blast
    with r True have "validate_dict (JDict d) = Inr (v \<in> JStr ` set valid_statuses)"
      by (simp add: validate_dict_def and_then_def)
    then show ?thesis by blast
  qed
qed

lemma validate_dict_True:
  assumes "validate_dict raw = Inr True"
  shows "\<exists>b. from_dict raw = Inr b \<and> status b \<in> set valid_statuses"
proof -
  from assms have c: "check_fields required_fields raw = Inr True"
    by (auto simp: validate_dict_def and_then_def split: sum.splits if_splits)
  have "\<exists>d. raw = JDict d"
  proof (rule ccontr)
    assume "\<not> (\<exists>d. raw = JDict d)"
    then have "check_fields ((ascii ''id'', TInt) # tl required_fields) raw \<noteq> Inr True"
      using check_fields_non_dict by blast
    with c show False by (simp add: required_fields_def)
  qed
  then obtain d where d: "raw = JDict d" by blast
  have f: "(f, ty) \<in> set required_fields \<Longrightarrow> \<exists>v. map_of d f = Some v \<and> isinstance v ty" for f ty
    using c d check_fields_True by blast
  obtain i where i: "map_of d (ascii ''id'') = Some (json_of_pyint i)"
    using f [of "ascii ''id''" TInt] isinstance_TInt by (auto simp: required_fields_def)
  obtain t where t: "map_of d (ascii ''title'') = Some (JStr t)"
    using f [of "ascii ''title''" TStr] isinstance_TStr by (auto simp: required_fields_def)
  obtain a where a: "map_of d (ascii ''author'') = Some (JStr a)"
    using f [of "ascii ''author''" TStr] isinstance_TStr by (auto simp: required_fields_def)
  obtain y where y: "map_of d (ascii ''year'') = Some (json_of_pyint y)"
    using f [of "ascii ''year''" TInt] isinstance_TInt by (auto simp: required_fields_def)
  obtain s where s: "map_of d (ascii ''status'') = Some (JStr s)"
    using f [of "ascii ''status''" TStr] isinstance_TStr by (auto simp: required_fields_def)
  have "from_dict raw = Inr (Book i t a y s)"
    by (simp add: from_dict_def d i t a y s and_then_def as_int_json_of_pyint)
  moreover have "s \<in> set valid_statuses"
    using assms c by (auto simp: validate_dict_def d s and_then_def split: if_splits)
  ultimately show ?thesis by (simp add: Book_def)
qed

lemma load_loop_valid:
  "load_loop entries bs out = (out', Inr bs') \<Longrightarrow>
   \<forall>b\<in>set bs. status b \<in> set valid_statuses \<Longrightarrow>
   \<forall>b\<in>set bs'. status b \<in> set valid_statuses"
proof (induction entries arbitrary: bs out)
  case Nil
  then show ?case by simp
next
  case (Cons raw rest)
  show ?case
  proof (cases "validate_dict raw")
    case (Inl e)
    with Cons.prems show ?thesis by simp
  next
    case (Inr ok)
    show ?thesis
    proof (cases ok)
      case True
      with Inr have "validate_dict raw = Inr True" by simp
      then obtain b where b: "from_dict raw = Inr b" "status b \<in> set valid_statuses"
        using validate_dict_True by blast
      with Cons.prems Inr True have "load_loop rest (bs @ [b]) out = (out', Inr bs')" by simp
      moreover have "\<forall>x\<in>set (bs @ [b]). status x \<in> set valid_statuses"
        using Cons.prems(2) b(2) by simp
      ultimately show ?thesis using Cons.IH by blast
    next
      case False
      with Cons.prems Inr have "load_loop rest bs (out @ [BadBookData raw]) = (out', Inr bs')"
        by (simp split: if_splits)
      then show ?thesis using Cons.IH Cons.prems(2) by blast
    qed
  qed
qed

lemma load_loop_objects:
  "\<forall>e\<in>set entries. \<exists>d. e = JDict d \<Longrightarrow> \<not> big_int_list entries \<Longrightarrow>
   load_loop entries bs out =
     (out @ map BadBookData [e \<leftarrow> entries. validate_dict e \<noteq> Inr True],
      Inr (bs @ map (\<lambda>e. projr (from_dict e)) [e \<leftarrow> entries. validate_dict e = Inr True]))"
proof (induction entries arbitrary: bs out)
  case Nil
  then show ?case by simp
next
  case (Cons raw rest)
  then obtain d where d: "raw = JDict d" by auto
  obtain ok where ok: "validate_dict raw = Inr ok"
    using d validate_dict_total by blast
  from Cons.prems(2) have small: "\<not> big_int raw" and "\<not> big_int_list rest" by simp_all
  then have IH: "load_loop rest bs' out' =
     (out' @ map BadBookData [e \<leftarrow> rest. validate_dict e \<noteq> Inr True],
      Inr (bs' @ map (\<lambda>e. projr (from_dict e)) [e \<leftarrow> rest. validate_dict e = Inr True]))"
    for bs' out'
    using Cons.IH Cons.prems(1) by simp
  show ?case
  proof (cases ok)
    case True
    with ok have v: "validate_dict raw = Inr True" by simp
    then obtain b where b: "from_dict raw = Inr b"
      using validate_dict_True by blast
    show ?thesis using v b by (simp add: IH)
  next
    case False
    show ?thesis using ok False small by (simp add: IH)
  qed
qed

lemma load_loop_to_dict:
  "\<forall>b\<in>set xs. status b \<in> set valid_statuses \<Longrightarrow>
   load_loop (map to_dict xs) bs out = (out, Inr (bs @ xs))"
  by (induction xs arbitrary: bs) (simp_all add: validate_dict_to_dict from_dict_to_dict)

section \<open>Facts about writing, printing and the digit limit\<close>




lemma encodable_names:
  "encodable (ascii ''id'')" "encodable (ascii ''title'')" "encodable (ascii ''author'')"
  "encodable (ascii ''year'')" "encodable (ascii ''status'')"
  by (simp_all add: encodable_def ascii_def)

lemma dump_error_pyint: "dump_error (json_of_pyint p) = (if formats p then None else Some ValueError)"
  by (cases p) simp_all

lemma big_int_pyint: "big_int (json_of_pyint p) = (\<not> formats p)"
  by (cases p) simp_all

lemma dump_error_to_dict: "dump_error (to_dict b) = None \<longleftrightarrow> storable b"
  by (simp add: to_dict_def encodable_names dump_error_pyint storable_def)

lemma dump_error_books: "dump_error_list (map to_dict bs) = None \<longleftrightarrow> list_all storable bs"
proof (induction bs)
  case Nil
  then show ?case by simp
next
  case (Cons b bs)
  show ?case
  proof (cases "dump_error (to_dict b)")
    case None
    then show ?thesis using Cons.IH by (simp add: dump_error_to_dict [symmetric])
  next
    case (Some e)
    then have "\<not> storable b" using dump_error_to_dict [of b] by simp
    with Some show ?thesis by simp
  qed
qed

lemma big_int_to_dict: "storable b \<Longrightarrow> \<not> big_int (to_dict b)"
  by (simp add: to_dict_def big_int_pyint storable_def)

lemma big_int_books: "list_all storable bs \<Longrightarrow> \<not> big_int_list (map to_dict bs)"
  by (induction bs) (simp_all add: big_int_to_dict)

lemma save_books_keeps:
  "books (snd (save_books self)) = books self"
  "printed (snd (save_books self)) = printed self"
  by (simp_all add: save_books_def split: option.splits)

lemma save_books_ok:
  "list_all storable (books self) \<Longrightarrow>
     save_books self = (Inr (), self\<lparr>data_file := Content (JList (map to_dict (books self)))\<rparr>)"
  using dump_error_books [of "books self"] by (simp add: save_books_def)

lemma save_books_raises:
  "\<not> list_all storable (books self) \<Longrightarrow>
     \<exists>e. save_books self = (Inl e, self\<lparr>data_file := Unparseable\<rparr>)"
proof -
  assume "\<not> list_all storable (books self)"
  then have "dump_error_list (map to_dict (books self)) \<noteq> None"
    by (simp add: dump_error_books)
  then obtain e where "dump_error_list (map to_dict (books self)) = Some e" by blast
  then have "save_books self = (Inl e, self\<lparr>data_file := Unparseable\<rparr>)"
    by (simp add: save_books_def)
  then show ?thesis by blast
qed

lemma print_keeps:
  "books (snd (print m self)) = books self"
  "data_file (snd (print m self)) = data_file self"
  by (simp_all add: print_def split: option.splits)

lemma print_ok: "msg_error m = None \<Longrightarrow> print m self = (Inr (), self\<lparr>printed := printed self @ [m]\<rparr>)"
  by (simp add: print_def)

lemma print_raises: "msg_error m = Some e \<Longrightarrow> print m self = (Inl e, self)"
  by (simp add: print_def)

lemma then_do_books:
  assumes "\<And>x s. books (snd (f x s)) = books s"
  shows "books (snd (then_do m f)) = books (snd m)"
  using assms by (cases m) (auto simp: then_do_def split: sum.splits)

lemma dump_error_kinds:
  "dump_error v = Some e \<Longrightarrow> e = ValueError \<or> e = UnicodeEncodeError"
  "dump_error_list vs = Some e \<Longrightarrow> e = ValueError \<or> e = UnicodeEncodeError"
  "dump_error_dict d = Some e \<Longrightarrow> e = ValueError \<or> e = UnicodeEncodeError"
  by (induction v and vs and d rule: dump_error_dump_error_list_dump_error_dict.induct)
    (auto split: if_splits option.splits)

lemma save_books_raises_kind:
  "\<not> list_all storable (books self) \<Longrightarrow>
     save_books self = (Inl ValueError, self\<lparr>data_file := Unparseable\<rparr>) \<or>
     save_books self = (Inl UnicodeEncodeError, self\<lparr>data_file := Unparseable\<rparr>)"
proof -
  assume "\<not> list_all storable (books self)"
  then have "dump_error_list (map to_dict (books self)) \<noteq> None"
    by (simp add: dump_error_books)
  then obtain e where e: "dump_error_list (map to_dict (books self)) = Some e" by blast
  then have "save_books self = (Inl e, self\<lparr>data_file := Unparseable\<rparr>)"
    by (simp add: save_books_def)
  with dump_error_kinds(2) [OF e] show ?thesis by auto
qed

lemma storable_example:
  "storable (Book (PInt 1) [97] [98] (PInt 2024) v_nalichii)"
  "storable (Book (PInt 2) [99] [100] (PInt 2023) v_nalichii)"
  "\<not> storable (Book (PInt 2) [55296] [100] (PInt 2023) v_nalichii)"
  by (simp_all add: storable_def Book_def encodable_def v_nalichii_def within_limit_def
      digits.simps int_max_str_digits_def)

section \<open>Facts about the operations of the Library\<close>

lemma max_from_Max: "int_of (max_from m xs) = Max (int_of ` set (m # xs))"
proof (induction xs arbitrary: m)
  case Nil
  then show ?case by simp
next
  case (Cons x xs)
  have "int_of (max_from m (x # xs)) = Max (int_of ` set ((if int_of m < int_of x then x else m) # xs))"
    using Cons.IH by simp
  also have "\<dots> = Max (int_of ` set (m # x # xs))"
  proof (cases "int_of m < int_of x")
    case True
    have "Max (insert (int_of m) (insert (int_of x) (int_of ` set xs))) =
          max (int_of m) (Max (insert (int_of x) (int_of ` set xs)))"
      by (rule Max_insert) simp_all
    also have "\<dots> = Max (insert (int_of x) (int_of ` set xs))"
      using True by (simp add: max_def Max_ge_iff)
    finally show ?thesis using True by simp
  next
    case False
    have "Max (insert (int_of x) (insert (int_of m) (int_of ` set xs))) =
          max (int_of x) (Max (insert (int_of m) (int_of ` set xs)))"
      by (rule Max_insert) simp_all
    also have "\<dots> = Max (insert (int_of m) (int_of ` set xs))"
      using False by (simp add: max_def Max_ge_iff)
    finally show ?thesis using False by (simp add: insert_commute)
  qed
  finally show ?case .
qed

lemma py_max_ids:
  "int_of (py_max (map book_id bs) (PInt 0)) =
     (if bs = [] then 0 else Max ((\<lambda>b. int_of (book_id b)) ` set bs))"
proof (cases bs)
  case Nil
  then show ?thesis by simp
next
  case (Cons b rest)
  have "int_of ` set (map book_id (b # rest)) = (\<lambda>b. int_of (book_id b)) ` set (b # rest)"
    by (simp add: image_image)
  then show ?thesis using Cons max_from_Max [of "book_id b" "map book_id rest"] by simp
qed

lemma py_max_ids_ge:
  "b \<in> set bs \<Longrightarrow> int_of (book_id b) \<le> int_of (py_max (map book_id bs) (PInt 0))"
  by (auto simp: py_max_ids)

lemma py_max_ids_pos:
  "positive_ids bs \<Longrightarrow> 0 \<le> int_of (py_max (map book_id bs) (PInt 0))"
proof (cases bs)
  case Nil
  then show ?thesis by simp
next
  case (Cons b rest)
  assume "positive_ids bs"
  then have "0 < int_of (book_id b)" using Cons by (simp add: positive_ids_def)
  moreover have "int_of (book_id b) \<le> int_of (py_max (map book_id bs) (PInt 0))"
    using Cons py_max_ids_ge [of b bs] by simp
  ultimately show ?thesis by linarith
qed

lemma add_book_books:
  "books (snd (add_book ttl auth yr self)) =
     books self @ [Book (new_id self) ttl auth yr v_nalichii]"
  by (simp add: add_book_def Let_def then_do_def save_books_def print_def
      split: option.splits)

lemma add_book_ok:
  assumes "list_all storable (books self @ [Book (new_id self) ttl auth yr v_nalichii])"
  shows "add_book ttl auth yr self =
     (Inr (Book (new_id self) ttl auth yr v_nalichii),
      self\<lparr>books := books self @ [Book (new_id self) ttl auth yr v_nalichii],
           data_file := Content (JList (map to_dict
             (books self @ [Book (new_id self) ttl auth yr v_nalichii]))),
           printed := printed self @ [Added ttl (new_id self)]\<rparr>)"
proof -
  let ?nb = "Book (new_id self) ttl auth yr v_nalichii"
  let ?self1 = "self\<lparr>books := books self @ [?nb]\<rparr>"
  from assms have "formats (new_id self)" by (simp add: storable_def Book_def)
  then have p: "msg_error (Added ttl (new_id self)) = None" by simp
  from assms have "list_all storable (books ?self1)" by simp
  then have s: "save_books ?self1 =
      (Inr (), ?self1\<lparr>data_file := Content (JList (map to_dict (books ?self1)))\<rparr>)"
    by (rule save_books_ok)
  show ?thesis
    unfolding add_book_def Let_def s then_do_def
    by (simp add: print_ok [OF p])
qed

lemma add_book_raises:
  assumes "\<not> list_all storable (books self @ [Book (new_id self) ttl auth yr v_nalichii])"
  shows "\<exists>e. add_book ttl auth yr self =
     (Inl e, self\<lparr>books := books self @ [Book (new_id self) ttl auth yr v_nalichii],
                  data_file := Unparseable\<rparr>)"
proof -
  let ?nb = "Book (new_id self) ttl auth yr v_nalichii"
  let ?self1 = "self\<lparr>books := books self @ [?nb]\<rparr>"
  from assms have "\<not> list_all storable (books ?self1)" by simp
  then obtain e where s: "save_books ?self1 = (Inl e, ?self1\<lparr>data_file := Unparseable\<rparr>)"
    using save_books_raises by blast
  have "add_book ttl auth yr self = (Inl e, ?self1\<lparr>data_file := Unparseable\<rparr>)"
    unfolding add_book_def Let_def s then_do_def by simp
  then show ?thesis by auto
qed

lemma add_book_returns:
  "fst (add_book ttl auth yr self) = Inr b \<Longrightarrow> b = Book (new_id self) ttl auth yr v_nalichii"
proof (cases "list_all storable (books self @ [Book (new_id self) ttl auth yr v_nalichii])")
  case True
  assume "fst (add_book ttl auth yr self) = Inr b"
  then show ?thesis using add_book_ok [OF True] by simp
next
  case False
  assume "fst (add_book ttl auth yr self) = Inr b"
  then show ?thesis using add_book_raises [OF False] by auto
qed

lemma new_id_greater:
  "b \<in> set (books self) \<Longrightarrow> int_of (book_id b) < int_of (new_id self)"
  using py_max_ids_ge [of b "books self"] by (simp add: new_id_def)

lemma new_id_Max:
  "new_id self =
     PInt ((if books self = [] then 0
            else Max ((\<lambda>b. int_of (book_id b)) ` set (books self))) + 1)"
  unfolding new_id_def py_max_ids ..

lemma next_with_id_filter:
  "next_with_id bid bs = (case with_id bid bs of [] \<Rightarrow> None | b # rest \<Rightarrow> Some b)"
  by (induction bs) (simp_all add: with_id_def)

lemma next_with_id_None:
  "next_with_id bid bs = None \<longleftrightarrow> int_of bid \<notin> (\<lambda>b. int_of (book_id b)) ` set bs"
  by (induction bs) auto

lemma next_with_id_Some:
  "next_with_id bid bs = Some b \<Longrightarrow>
     \<exists>pre post. bs = pre @ b # post \<and> with_id bid pre = [] \<and> int_of (book_id b) = int_of bid"
proof (induction bs)
  case Nil
  then show ?case by simp
next
  case (Cons x xs)
  show ?case
  proof (cases "int_of (book_id x) = int_of bid")
    case True
    with Cons.prems have "x = b" by simp
    then have "x # xs = [] @ b # xs \<and> with_id bid [] = [] \<and> int_of (book_id b) = int_of bid"
      using True by (simp add: with_id_def)
    then show ?thesis by blast
  next
    case False
    with Cons.prems have "next_with_id bid xs = Some b" by simp
    then obtain pre post where h: "xs = pre @ b # post" "with_id bid pre = []"
        "int_of (book_id b) = int_of bid"
      using Cons.IH by blast
    then have "x # xs = (x # pre) @ b # post \<and> with_id bid (x # pre) = [] \<and>
        int_of (book_id b) = int_of bid"
      using False by (simp add: with_id_def)
    then show ?thesis by blast
  qed
qed

lemma with_id_Nil_notin:
  "with_id bid pre = [] \<Longrightarrow> int_of (book_id b) = int_of bid \<Longrightarrow> b \<notin> set pre"
  by (auto simp: with_id_def filter_empty_conv)

lemma remove1_found:
  "with_id bid pre = [] \<Longrightarrow> int_of (book_id b) = int_of bid \<Longrightarrow>
     remove1 b (pre @ b # post) = pre @ post"
  using with_id_Nil_notin [of bid pre b] by (simp add: remove1_append)





lemma delete_book_books:
  "books (snd (delete_book bid self)) =
     (case find_book_by_id bid self of None \<Rightarrow> books self | Some b \<Rightarrow> remove1 b (books self))"
  by (simp add: delete_book_def then_do_def print_def save_books_def
      split: option.splits)

lemma update_status_books:
  "books (snd (update_status bid s self)) =
     (if find_book_by_id bid self \<noteq> None \<and> (s = v_nalichii \<or> s = vydana)
      then set_status bid s (books self) else books self)"
  by (auto simp: update_status_def then_do_def print_def save_books_def
      split: option.splits)

lemma passes_validate_dict_iff:
  "passes_validate_dict b \<longleftrightarrow> status b = v_nalichii \<or> status b = vydana"
  by (auto simp: passes_validate_dict_def validate_dict_to_dict valid_statuses_def)

lemma Library_passes:
  assumes "Library f = Inr lib"
  shows "list_all passes_validate_dict (books lib)"
proof -
  obtain out where l: "load_books f = (out, Inr (books lib))"
    using assms by (auto simp: Library_def split: prod.splits sum.splits)
  have "\<forall>b\<in>set (books lib). status b \<in> set valid_statuses"
  proof (cases f)
    case Missing
    with l show ?thesis by auto
  next
    case Unparseable
    with l show ?thesis by auto
  next
    case (Content doc)
    with l obtain entries where "load_loop entries [] [] = (out, Inr (books lib))"
      by (auto split: sum.splits)
    then show ?thesis using load_loop_valid [of entries "[]" "[]" out "books lib"] by simp
  qed
  then show ?thesis
    by (simp add: list_all_iff passes_validate_dict_def validate_dict_to_dict)
qed

lemma set_status_ids: "map book_id (set_status bid s bs) = map book_id bs"
  by (induction bs) simp_all

lemma set_status_passes:
  "s = v_nalichii \<or> s = vydana \<Longrightarrow> list_all passes_validate_dict bs \<Longrightarrow>
     list_all passes_validate_dict (set_status bid s bs)"
  by (induction bs) (auto simp: passes_validate_dict_iff)

lemma ids_of_map: "map (\<lambda>b. int_of (book_id b)) bs = map int_of (map book_id bs)"
  by simp

lemma set_status_unique: "unique_ids (set_status bid s bs) = unique_ids bs"
  unfolding unique_ids_def ids_of_map set_status_ids ..

lemma set_status_positive: "positive_ids (set_status bid s bs) = positive_ids bs"
proof -
  have "positive_ids xs = list_all (\<lambda>i. 0 < int_of i) (map book_id xs)" for xs
    by (simp add: positive_ids_def list_all_iff)
  then show ?thesis by (simp add: set_status_ids)
qed

lemma remove1_list_all: "list_all P bs \<Longrightarrow> list_all P (remove1 b bs)"
  by (auto simp: list_all_iff dest: notin_set_remove1)

lemma remove1_unique: "unique_ids bs \<Longrightarrow> unique_ids (remove1 b bs)"
proof (induction bs)
  case Nil
  then show ?case by simp
next
  case (Cons x xs)
  have "set (remove1 b xs) \<subseteq> set xs" by (rule set_remove1_subset)
  with Cons show ?case by (auto simp: unique_ids_def)
qed

lemma add_book_unique:
  "unique_ids (books self) \<Longrightarrow> unique_ids (books (snd (add_book ttl auth yr self)))"
  using new_id_greater [of _ self]
  by (fastforce simp: unique_ids_def add_book_books Book_def)

lemma add_book_positive:
  "positive_ids (books self) \<Longrightarrow> positive_ids (books (snd (add_book ttl auth yr self)))"
  using py_max_ids_pos [of "books self"]
  by (simp add: positive_ids_def add_book_books Book_def new_id_def)

lemma add_book_passes:
  "list_all passes_validate_dict (books self) \<Longrightarrow>
     list_all passes_validate_dict (books (snd (add_book ttl auth yr self)))"
  by (simp add: add_book_books passes_validate_dict_iff Book_def)

lemma load_books_objects:
  "load_books Missing = ([], Inr [])"
  "load_books Unparseable = ([ReadError], Inr [])"
  "\<forall>e\<in>set entries. \<exists>d. e = JDict d \<Longrightarrow> \<not> big_int_list entries \<Longrightarrow>
   load_books (Content (JList entries)) =
     (map BadBookData [e \<leftarrow> entries. validate_dict e \<noteq> Inr True],
      Inr (map (\<lambda>e. projr (from_dict e)) [e \<leftarrow> entries. validate_dict e = Inr True]))"
  using load_loop_objects [of entries "[]" "[]"] by (simp_all add: json_load_def)

lemma add_book_raises_kind:
  assumes "\<not> list_all storable (books self @ [Book (new_id self) ttl auth yr v_nalichii])"
  shows "(fst (add_book ttl auth yr self) = Inl ValueError \<or>
          fst (add_book ttl auth yr self) = Inl UnicodeEncodeError) \<and>
         data_file (snd (add_book ttl auth yr self)) = Unparseable \<and>
         printed (snd (add_book ttl auth yr self)) = printed self"
proof -
  let ?self1 = "self\<lparr>books := books self @ [Book (new_id self) ttl auth yr v_nalichii]\<rparr>"
  from assms have "\<not> list_all storable (books ?self1)" by simp
  from save_books_raises_kind [OF this] show ?thesis
    unfolding add_book_def Let_def then_do_def by auto
qed

lemma last_added:
  "last (books (snd (add_book ttl auth yr self))) = Book (new_id self) ttl auth yr v_nalichii"
  by (simp add: add_book_books)

lemma assigned_ids_Add:
  "assigned_ids (Add ttl auth yr # ops) self =
     (case fst (add_book ttl auth yr self) of
        Inr b \<Rightarrow> int_of (book_id b) # assigned_ids ops (snd (add_book ttl auth yr self))
      | Inl e \<Rightarrow> assigned_ids ops (snd (add_book ttl auth yr self)))"
  by (simp add: assigned_ids_def split: prod.splits sum.splits)

lemma assigned_ids_Delete:
  "assigned_ids (Delete bid # ops) self = assigned_ids ops (snd (delete_book bid self))"
  by (simp add: assigned_ids_def)

lemma spares_latest_Add:
  "spares_latest latest (Add ttl auth yr # ops) self =
     (case fst (add_book ttl auth yr self) of
        Inr b \<Rightarrow> spares_latest (Some (int_of (book_id b))) ops (snd (add_book ttl auth yr self))
      | Inl e \<Rightarrow> spares_latest latest ops (snd (add_book ttl auth yr self)))"
  by (simp split: prod.splits sum.splits)

lemma delete_book_keeps_other:
  assumes "k \<in> (\<lambda>b. int_of (book_id b)) ` set (books self)" and "k \<noteq> int_of bid"
  shows "k \<in> (\<lambda>b. int_of (book_id b)) ` set (books (snd (delete_book bid self)))"
proof (cases "find_book_by_id bid self")
  case None
  with assms show ?thesis by (simp add: delete_book_books)
next
  case (Some b)
  then obtain pre post where d: "books self = pre @ b # post" "with_id bid pre = []"
      "int_of (book_id b) = int_of bid"
    using next_with_id_Some [of bid "books self" b] by (auto simp: find_book_by_id_def)
  then have r: "books (snd (delete_book bid self)) = pre @ post"
    using Some remove1_found [of bid pre b post] by (simp add: delete_book_books)
  from assms(1) obtain x where x: "x \<in> set (books self)" "k = int_of (book_id x)" by blast
  with assms(2) d(3) have "x \<noteq> b" by auto
  with x(1) d(1) have "x \<in> set (pre @ post)" by auto
  with r x(2) show ?thesis by auto
qed

lemma run_increasing:
  "(\<forall>k. latest = Some k \<longrightarrow> k \<in> (\<lambda>b. int_of (book_id b)) ` set (books self)) \<Longrightarrow>
   spares_latest latest ops self \<Longrightarrow>
   sorted_wrt (<) (assigned_ids ops self) \<and>
   (\<forall>k. latest = Some k \<longrightarrow> (\<forall>i\<in>set (assigned_ids ops self). k < i))"
proof (induction ops arbitrary: latest self)
  case Nil
  then show ?case by (simp add: assigned_ids_def)
next
  case (Cons o1 ops)
  show ?case
  proof (cases o1)
    case (Add ttl auth yr)
    let ?nb = "Book (new_id self) ttl auth yr v_nalichii"
    let ?self1 = "snd (add_book ttl auth yr self)"
    have bs1: "books ?self1 = books self @ [?nb]" by (rule add_book_books)
    have old: "k < int_of (book_id ?nb)" if "latest = Some k" for k
    proof -
      from that Cons.prems(1) obtain x where "x \<in> set (books self)" "k = int_of (book_id x)"
        by blast
      then show ?thesis using new_id_greater [of x self] by (simp add: Book_def)
    qed
    show ?thesis
    proof (cases "fst (add_book ttl auth yr self)")
      case (Inr b)
      then have b: "b = ?nb" by (rule add_book_returns)
      have in1: "\<forall>k. Some (int_of (book_id ?nb)) = Some k \<longrightarrow>
          k \<in> (\<lambda>b. int_of (book_id b)) ` set (books ?self1)"
        by (simp add: bs1)
      have sp: "spares_latest (Some (int_of (book_id ?nb))) ops ?self1"
        using Cons.prems(2) unfolding Add spares_latest_Add Inr b by simp
      from Cons.IH [OF in1 sp]
      have s: "sorted_wrt (<) (assigned_ids ops ?self1)"
        and g: "\<forall>i\<in>set (assigned_ids ops ?self1). int_of (book_id ?nb) < i"
        by simp_all
      have e: "assigned_ids (o1 # ops) self = int_of (book_id ?nb) # assigned_ids ops ?self1"
        unfolding Add assigned_ids_Add Inr b by simp
      have "sorted_wrt (<) (assigned_ids (o1 # ops) self)"
        unfolding e using s g by simp
      moreover have "\<forall>k. latest = Some k \<longrightarrow> (\<forall>i\<in>set (assigned_ids (o1 # ops) self). k < i)"
        unfolding e using g old by fastforce
      ultimately show ?thesis by simp
    next
      case (Inl e)
      have in1: "\<forall>k. latest = Some k \<longrightarrow>
          k \<in> (\<lambda>b. int_of (book_id b)) ` set (books ?self1)"
        using Cons.prems(1) by (auto simp: bs1)
      have sp: "spares_latest latest ops ?self1"
        using Cons.prems(2) unfolding Add spares_latest_Add Inl by simp
      have e: "assigned_ids (o1 # ops) self = assigned_ids ops ?self1"
        unfolding Add assigned_ids_Add Inl by simp
      from Cons.IH [OF in1 sp] show ?thesis unfolding e .
    qed
  next
    case (Delete bid)
    from Cons.prems(2) have ne: "latest \<noteq> Some (int_of bid)"
      and sp: "spares_latest latest ops (snd (delete_book bid self))"
      unfolding Delete by simp_all
    have in1: "\<forall>k. latest = Some k \<longrightarrow>
        k \<in> (\<lambda>b. int_of (book_id b)) ` set (books (snd (delete_book bid self)))"
    proof (intro allI impI)
      fix k
      assume l: "latest = Some k"
      with Cons.prems(1) have "k \<in> (\<lambda>b. int_of (book_id b)) ` set (books self)" by blast
      moreover from l ne have "k \<noteq> int_of bid" by simp
      ultimately show "k \<in> (\<lambda>b. int_of (book_id b)) ` set (books (snd (delete_book bid self)))"
        by (rule delete_book_keeps_other)
    qed
    from Cons.IH [OF in1 sp] show ?thesis
      unfolding Delete assigned_ids_Delete .
  qed
qed

section \<open>Facts about decimal text and the search\<close>















lemma py_str_examples:
  "py_str (PInt 2024) = Inr (ascii ''2024'')"
  "py_str (PInt (- 45)) = Inr (ascii ''-45'')"
  "py_str (PInt 0) = Inr (ascii ''0'')"
  "py_str (PBool True) = Inr (ascii ''True'')"
  by (simp_all add: digits.simps ascii_def within_limit_def int_max_str_digits_def)

lemma find_book_by_id_duplicates:
  "find_book_by_id (PInt 7)
     \<lparr>books = [Book (PInt 3) [97] [98] (PInt 1999) vydana,
               Book (PInt 7) [99] [100] (PInt 2001) v_nalichii,
               Book (PInt 7) [101] [102] (PInt 2002) vydana],
      data_file = Missing, printed = []\<rparr>
   = Some (Book (PInt 7) [99] [100] (PInt 2001) v_nalichii)"
  by (simp add: find_book_by_id_def Book_def)

text \<open>The scenario of the specification, section 8: the search for \<^verbatim>\<open>2024\<close> selects
  the first of the two records only; a search by title ignores the case of ASCII letters.\<close>

lemma py_lower_ascii_example: "py_lower (ascii ''Test Title'') = ascii ''test title''"
  by (simp add: py_lower_def lower_char_def ascii_def)

lemma search_scenario:
  "search_results py_lower (ascii ''2024'')
     [Book (PInt 1) (ascii ''Title 1'') (ascii ''Author 1'') (PInt 2024) v_nalichii,
      Book (PInt 2) (ascii ''Title 2'') (ascii ''Author 2'') (PInt 2023) v_nalichii] =
     Inr [Book (PInt 1) (ascii ''Title 1'') (ascii ''Author 1'') (PInt 2024) v_nalichii]"
  "search_results py_lower (ascii ''tITLE'')
     [Book (PInt 1) (ascii ''Title 1'') (ascii ''Author 1'') (PInt 2024) v_nalichii,
      Book (PInt 2) (ascii ''Title 2'') (ascii ''Author 2'') (PInt 2023) v_nalichii] =
     Inr [Book (PInt 1) (ascii ''Title 1'') (ascii ''Author 1'') (PInt 2024) v_nalichii,
          Book (PInt 2) (ascii ''Title 2'') (ascii ''Author 2'') (PInt 2023) v_nalichii]"
  by (simp_all add: matches_def py_lower_def lower_char_def ascii_def Book_def and_then_def
      digits.simps within_limit_def int_max_str_digits_def)

section \<open>The claims of the specification\<close>

subsection \<open>C1: the invariant of the catalog\<close>

text \<open>
  C1, as the specification states it, does not hold. \<^verbatim>\<open>validate_dict\<close> checks the
  types of the five fields and the value of \<^verbatim>\<open>status\<close>, nothing else, and
  \<^verbatim>\<open>load_books\<close> compares no ids: a file with two entries of id 0 and empty title and
  author loads as two records, which breaks the positive id, the non-empty texts and the
  uniqueness of ids. \<^verbatim>\<open>add_book\<close> accepts an empty title and author as well.
\<close>

theorem spec_invariant_counterexample:
  "Library (Content (JList
      [to_dict (Book (PInt 0) [] [] (PInt 1) vydana),
       to_dict (Book (PInt 0) [] [] (PInt 1) vydana)])) =
     Inr \<lparr>books = [Book (PInt 0) [] [] (PInt 1) vydana, Book (PInt 0) [] [] (PInt 1) vydana],
          data_file = Content (JList
            [to_dict (Book (PInt 0) [] [] (PInt 1) vydana),
             to_dict (Book (PInt 0) [] [] (PInt 1) vydana)]),
          printed = []\<rparr> \<and>
   \<not> spec_catalog_invariant
       [Book (PInt 0) [] [] (PInt 1) vydana, Book (PInt 0) [] [] (PInt 1) vydana] \<and>
   \<not> unique_ids [Book (PInt 0) [] [] (PInt 1) vydana, Book (PInt 0) [] [] (PInt 1) vydana] \<and>
   \<not> spec_record_rule (Book (PInt 0) [] [] (PInt 1) vydana) \<and>
   spec_catalog_invariant [] \<and>
   \<not> spec_catalog_invariant
       (books (snd (add_book [] [] (PInt 1) \<lparr>books = [], data_file = Missing, printed = []\<rparr>)))"
proof -
  have s: "storable (Book (PInt 0) [] [] (PInt 1) vydana)"
    by (simp add: storable_def Book_def encodable_def vydana_def within_limit_def
        digits.simps int_max_str_digits_def)
  then have "\<not> big_int_list
      [to_dict (Book (PInt 0) [] [] (PInt 1) vydana),
       to_dict (Book (PInt 0) [] [] (PInt 1) vydana)]"
    by (simp add: big_int_to_dict)
  then have "Library (Content (JList
      [to_dict (Book (PInt 0) [] [] (PInt 1) vydana),
       to_dict (Book (PInt 0) [] [] (PInt 1) vydana)])) =
     Inr \<lparr>books = [Book (PInt 0) [] [] (PInt 1) vydana, Book (PInt 0) [] [] (PInt 1) vydana],
          data_file = Content (JList
            [to_dict (Book (PInt 0) [] [] (PInt 1) vydana),
             to_dict (Book (PInt 0) [] [] (PInt 1) vydana)]),
          printed = []\<rparr>"
    by (simp add: Library_def json_load_def validate_dict_to_dict from_dict_to_dict
        valid_statuses_def Book_def)
  moreover have
    "\<not> unique_ids [Book (PInt 0) [] [] (PInt 1) vydana, Book (PInt 0) [] [] (PInt 1) vydana]"
    by (simp add: unique_ids_def)
  moreover have "\<not> spec_record_rule (Book (PInt 0) [] [] (PInt 1) vydana)"
    by (simp add: spec_record_rule_def Book_def)
  moreover have "spec_catalog_invariant []"
    by (simp add: spec_catalog_invariant_def unique_ids_def)
  moreover have "\<not> spec_catalog_invariant
       (books (snd (add_book [] [] (PInt 1) \<lparr>books = [], data_file = Missing, printed = []\<rparr>)))"
    by (simp add: spec_catalog_invariant_def add_book_books Book_def spec_record_rule_def)
  ultimately show ?thesis by (simp add: spec_catalog_invariant_def)
qed

text \<open>
  C1, amended: after a load that returns, every record of the collection passes the
  rule that \<^verbatim>\<open>validate_dict\<close> checks (an integer id and year, text for title and author,
  one of the two permitted statuses); \<^verbatim>\<open>add_book\<close>, \<^verbatim>\<open>delete_book\<close> and
  \<^verbatim>\<open>update_status\<close>, whether they return or raise, leave a collection that keeps that
  rule, keeps the ids unique when they were unique, and keeps the ids positive when they
  were positive.
\<close>

theorem catalog_invariant_of_code:
  "(Library f = Inr lib \<longrightarrow> list_all passes_validate_dict (books lib)) \<and>
   (list_all passes_validate_dict (books self) \<longrightarrow>
      list_all passes_validate_dict (books (snd (add_book ttl auth yr self))) \<and>
      list_all passes_validate_dict (books (snd (delete_book bid self))) \<and>
      list_all passes_validate_dict (books (snd (update_status bid s self)))) \<and>
   (unique_ids (books self) \<longrightarrow>
      unique_ids (books (snd (add_book ttl auth yr self))) \<and>
      unique_ids (books (snd (delete_book bid self))) \<and>
      unique_ids (books (snd (update_status bid s self)))) \<and>
   (positive_ids (books self) \<longrightarrow>
      positive_ids (books (snd (add_book ttl auth yr self))) \<and>
      positive_ids (books (snd (delete_book bid self))) \<and>
      positive_ids (books (snd (update_status bid s self))))"
proof (intro conjI impI)
  assume "Library f = Inr lib"
  then show "list_all passes_validate_dict (books lib)" by (rule Library_passes)
next
  assume v: "list_all passes_validate_dict (books self)"
  show "list_all passes_validate_dict (books (snd (add_book ttl auth yr self)))"
    using v by (rule add_book_passes)
  show "list_all passes_validate_dict (books (snd (delete_book bid self)))"
    using v by (simp add: delete_book_books remove1_list_all split: option.splits)
  show "list_all passes_validate_dict (books (snd (update_status bid s self)))"
    using v set_status_passes [of s "books self" bid] by (auto simp: update_status_books)
next
  assume u: "unique_ids (books self)"
  show "unique_ids (books (snd (add_book ttl auth yr self)))"
    using u by (rule add_book_unique)
  show "unique_ids (books (snd (delete_book bid self)))"
    using u by (simp add: delete_book_books remove1_unique split: option.splits)
  show "unique_ids (books (snd (update_status bid s self)))"
    using u by (simp add: update_status_books set_status_unique)
next
  assume p: "positive_ids (books self)"
  show "positive_ids (books (snd (add_book ttl auth yr self)))"
    using p by (rule add_book_positive)
  show "positive_ids (books (snd (delete_book bid self)))"
    using p by (simp add: delete_book_books positive_ids_def remove1_list_all split: option.splits)
  show "positive_ids (books (snd (update_status bid s self)))"
    using p by (simp add: update_status_books set_status_positive)
qed

theorem catalog_invariant_of_code_witness:
  "Library (Content (JList [to_dict (Book (PInt 1) [97] [98] (PInt 2024) v_nalichii)])) =
     Inr \<lparr>books = [Book (PInt 1) [97] [98] (PInt 2024) v_nalichii],
          data_file = Content (JList [to_dict (Book (PInt 1) [97] [98] (PInt 2024) v_nalichii)]),
          printed = []\<rparr> \<and>
   list_all passes_validate_dict [Book (PInt 1) [97] [98] (PInt 2024) v_nalichii] \<and>
   unique_ids [Book (PInt 1) [97] [98] (PInt 2024) v_nalichii] \<and>
   positive_ids [Book (PInt 1) [97] [98] (PInt 2024) v_nalichii] \<and>
   list_all passes_validate_dict (books (snd (add_book [99] [] (PInt 2023)
     \<lparr>books = [Book (PInt 1) [97] [98] (PInt 2024) v_nalichii],
       data_file = Content (JList [to_dict (Book (PInt 1) [97] [98] (PInt 2024) v_nalichii)]),
       printed = []\<rparr>))) \<and>
   unique_ids (books (snd (delete_book (PInt 1)
     \<lparr>books = [Book (PInt 1) [97] [98] (PInt 2024) v_nalichii],
       data_file = Content (JList [to_dict (Book (PInt 1) [97] [98] (PInt 2024) v_nalichii)]),
       printed = []\<rparr>))) \<and>
   positive_ids (books (snd (update_status (PInt 1) vydana
     \<lparr>books = [Book (PInt 1) [97] [98] (PInt 2024) v_nalichii],
       data_file = Content (JList [to_dict (Book (PInt 1) [97] [98] (PInt 2024) v_nalichii)]),
       printed = []\<rparr>)))"
proof -
  let ?F = "Content (JList [to_dict (Book (PInt 1) [97] [98] (PInt 2024) v_nalichii)])"
  let ?L = "\<lparr>books = [Book (PInt 1) [97] [98] (PInt 2024) v_nalichii],
              data_file = ?F, printed = []\<rparr>"
  have "\<not> big_int_list [to_dict (Book (PInt 1) [97] [98] (PInt 2024) v_nalichii)]"
    by (simp add: big_int_to_dict storable_example)
  then have h1: "Library ?F = Inr ?L"
    by (simp add: Library_def json_load_def validate_dict_to_dict from_dict_to_dict
        valid_statuses_def Book_def)
  have h2: "list_all passes_validate_dict (books ?L)"
    by (simp add: passes_validate_dict_iff Book_def)
  have h3: "unique_ids (books ?L)"
    by (simp add: unique_ids_def)
  have h4: "positive_ids (books ?L)"
    by (simp add: positive_ids_def Book_def)
  from catalog_invariant_of_code [of ?F ?L ?L "[99]" "[]" "PInt 2023" "PInt 1" vydana] h1 h2 h3 h4
  have "list_all passes_validate_dict (books (snd (add_book [99] [] (PInt 2023) ?L))) \<and>
        unique_ids (books (snd (delete_book (PInt 1) ?L))) \<and>
        positive_ids (books (snd (update_status (PInt 1) vydana ?L)))"
    by blast
  with h1 h2 h3 h4 show ?thesis by simp
qed

subsection \<open>C2: the ids that add\_book assigns\<close>

text \<open>
  C2, as the specification states it, does not hold: \<^verbatim>\<open>add_book\<close> takes the largest id
  of the collection plus one and keeps no counter, so after the record with the largest
  id is deleted the next \<^verbatim>\<open>add_book\<close> assigns that id again. From the empty catalog,
  add, delete 1, add returns the ids 1 and 1.
\<close>

theorem add_after_delete_reuses_id:
  "assigned_ids [Add [97] [98] (PInt 2024), Delete (PInt 1), Add [99] [100] (PInt 2023)]
     \<lparr>books = [], data_file = Missing, printed = []\<rparr> = [1, 1]"
proof -
  let ?L0 = "\<lparr>books = [], data_file = Missing, printed = []\<rparr>"
  let ?b1 = "Book (PInt 1) [97] [98] (PInt 2024) v_nalichii"
  let ?b2 = "Book (PInt 1) [99] [100] (PInt 2023) v_nalichii"
  have n0: "new_id ?L0 = PInt 1" by (simp add: new_id_def)
  have s1: "list_all storable (books ?L0 @ [Book (new_id ?L0) [97] [98] (PInt 2024) v_nalichii])"
    unfolding n0 by (simp add: storable_example)
  let ?L1 = "snd (add_book [97] [98] (PInt 2024) ?L0)"
  have a1: "fst (add_book [97] [98] (PInt 2024) ?L0) = Inr ?b1" and b1: "books ?L1 = [?b1]"
    using add_book_ok [OF s1] unfolding n0 by simp_all
  let ?L2 = "snd (delete_book (PInt 1) ?L1)"
  have b2: "books ?L2 = []"
    by (simp add: delete_book_books find_book_by_id_def b1 Book_def)
  have n2: "new_id ?L2 = PInt 1" by (simp add: new_id_def b2)
  have "storable ?b2"
    by (simp add: storable_def Book_def encodable_def v_nalichii_def within_limit_def
        digits.simps int_max_str_digits_def)
  then have s2: "list_all storable (books ?L2 @ [Book (new_id ?L2) [99] [100] (PInt 2023) v_nalichii])"
    unfolding n2 b2 by simp
  have a2: "fst (add_book [99] [100] (PInt 2023) ?L2) = Inr ?b2"
    using add_book_ok [OF s2] unfolding n2 by simp
  show ?thesis
    unfolding assigned_ids_Add assigned_ids_Delete a1 a2
    by (simp add: assigned_ids_def Book_def)
qed

text \<open>
  C2, amended: in every sequence of \<^verbatim>\<open>add_book\<close> and \<^verbatim>\<open>delete_book\<close> calls, from any
  catalog state, in which no \<^verbatim>\<open>delete_book\<close> is called with the id that the latest
  \<^verbatim>\<open>add_book\<close> before it returned, the ids returned by the successive \<^verbatim>\<open>add_book\<close>
  calls are strictly increasing (hence mutually different); and every \<^verbatim>\<open>add_book\<close>, in
  any state, appends a record whose id is greater than the id of every record in the
  collection, so never the id of a record that exists, and that record is what it
  returns when it returns.
\<close>

theorem add_ids_increasing:
  "(spares_latest None ops self \<longrightarrow>
      sorted_wrt (<) (assigned_ids ops self) \<and> distinct (assigned_ids ops self)) \<and>
   list_all
     (\<lambda>b. int_of (book_id b) <
          int_of (book_id (last (books (snd (add_book ttl auth yr self))))))
     (books self) \<and>
   (case fst (add_book ttl auth yr self) of
      Inr b \<Rightarrow> b = last (books (snd (add_book ttl auth yr self)))
    | Inl e \<Rightarrow> e = ValueError \<or> e = UnicodeEncodeError)"
proof (intro conjI)
  show "spares_latest None ops self \<longrightarrow>
      sorted_wrt (<) (assigned_ids ops self) \<and> distinct (assigned_ids ops self)"
    using run_increasing [of None self ops] by (simp add: strict_sorted_iff)
  show "list_all
     (\<lambda>b. int_of (book_id b) <
          int_of (book_id (last (books (snd (add_book ttl auth yr self))))))
     (books self)"
    unfolding last_added using new_id_greater [of _ self] by (simp add: list_all_iff Book_def)
  show "case fst (add_book ttl auth yr self) of
      Inr b \<Rightarrow> b = last (books (snd (add_book ttl auth yr self)))
    | Inl e \<Rightarrow> e = ValueError \<or> e = UnicodeEncodeError"
  proof (cases "list_all storable (books self @ [Book (new_id self) ttl auth yr v_nalichii])")
    case True
    show ?thesis unfolding last_added by (simp add: add_book_ok [OF True])
  next
    case False
    from add_book_raises_kind [OF False] show ?thesis by auto
  qed
qed

theorem add_ids_increasing_witness:
  "spares_latest None
     [Add [97] [98] (PInt 2024), Add [55296] [100] (PInt 2023), Delete (PInt 2),
      Add [101] [102] (PInt 2022)]
     \<lparr>books = [], data_file = Missing, printed = []\<rparr> \<and>
   sorted_wrt (<)
     (assigned_ids
        [Add [97] [98] (PInt 2024), Add [55296] [100] (PInt 2023), Delete (PInt 2),
         Add [101] [102] (PInt 2022)]
        \<lparr>books = [], data_file = Missing, printed = []\<rparr>)"
proof -
  have h: "spares_latest None
     [Add [97] [98] (PInt 2024), Add [55296] [100] (PInt 2023), Delete (PInt 2),
      Add [101] [102] (PInt 2022)]
     \<lparr>books = [], data_file = Missing, printed = []\<rparr>"
    by (simp add: add_book_def new_id_def delete_book_def find_book_by_id_def Book_def
        save_books_def print_def then_do_def Let_def to_dict_def encodable_def ascii_def
        v_nalichii_def within_limit_def digits.simps int_max_str_digits_def)
  with add_ids_increasing
    [of "[Add [97] [98] (PInt 2024), Add [55296] [100] (PInt 2023), Delete (PInt 2),
          Add [101] [102] (PInt 2022)]"
        "\<lparr>books = [], data_file = Missing, printed = []\<rparr>"]
  show ?thesis by blast
qed

subsection \<open>C3: add\_book\<close>

text \<open>
  C3, as the specification states it, does not hold for every title, author and year:
  \<^verbatim>\<open>add_book\<close> saves before it returns, and \<^verbatim>\<open>_save_books\<close> raises when a text of the
  collection cannot be encoded in UTF-8 or an integer is over the digit limit. With a
  title that is a lone surrogate, on the empty catalog, the record is appended, the file
  is left unparseable, and \<^verbatim>\<open>add_book\<close> raises \<^verbatim>\<open>UnicodeEncodeError\<close>: nothing is
  returned and nothing is printed.
\<close>

theorem add_book_raises_counterexample:
  "add_book [55296] [98] (PInt 2024) \<lparr>books = [], data_file = Missing, printed = []\<rparr> =
     (Inl UnicodeEncodeError,
      \<lparr>books = [Book (PInt 1) [55296] [98] (PInt 2024) v_nalichii],
       data_file = Unparseable, printed = []\<rparr>)"
  by (simp add: add_book_def new_id_def Let_def then_do_def save_books_def to_dict_def
      Book_def encodable_def ascii_def within_limit_def digits.simps int_max_str_digits_def)

text \<open>
  C3, amended: for every library and every title, author and year, \<^verbatim>\<open>add_book\<close>
  appends to the collection, leaving the old records unchanged and in their order, a
  record whose id is the largest id of the collection (0 for an empty collection) plus
  one, with the given title, author and year and the status \<open>v_nalichii\<close>. When every
  record of the new collection can be written (texts encodable in UTF-8, ids and years
  within the digit limit) it returns that record, the file holds the new collection and
  the message is printed; otherwise it raises \<^verbatim>\<open>ValueError\<close> or
  \<^verbatim>\<open>UnicodeEncodeError\<close> after the append, the file is left unparseable and nothing is
  printed.
\<close>

theorem add_book_appends:
  "books (snd (add_book ttl auth yr self)) =
     books self @
       [\<lparr>book_id = PInt ((if books self = [] then 0
                           else Max ((\<lambda>b. int_of (book_id b)) ` set (books self))) + 1),
         title = ttl, author = auth, year = yr, status = v_nalichii\<rparr>] \<and>
   (list_all storable (books (snd (add_book ttl auth yr self))) \<longrightarrow>
      fst (add_book ttl auth yr self) = Inr (last (books (snd (add_book ttl auth yr self)))) \<and>
      data_file (snd (add_book ttl auth yr self)) =
        Content (JList (map to_dict (books (snd (add_book ttl auth yr self))))) \<and>
      printed (snd (add_book ttl auth yr self)) =
        printed self @ [Added ttl (book_id (last (books (snd (add_book ttl auth yr self)))))]) \<and>
   (\<not> list_all storable (books (snd (add_book ttl auth yr self))) \<longrightarrow>
      (fst (add_book ttl auth yr self) = Inl ValueError \<or>
       fst (add_book ttl auth yr self) = Inl UnicodeEncodeError) \<and>
      data_file (snd (add_book ttl auth yr self)) = Unparseable \<and>
      printed (snd (add_book ttl auth yr self)) = printed self)"
proof (intro conjI impI)
  show "books (snd (add_book ttl auth yr self)) =
     books self @
       [\<lparr>book_id = PInt ((if books self = [] then 0
                           else Max ((\<lambda>b. int_of (book_id b)) ` set (books self))) + 1),
         title = ttl, author = auth, year = yr, status = v_nalichii\<rparr>]"
    unfolding add_book_books Book_def new_id_Max ..
next
  assume "list_all storable (books (snd (add_book ttl auth yr self)))"
  then have ok: "list_all storable (books self @ [Book (new_id self) ttl auth yr v_nalichii])"
    unfolding add_book_books .
  show "fst (add_book ttl auth yr self) = Inr (last (books (snd (add_book ttl auth yr self))))"
    unfolding last_added by (simp add: add_book_ok [OF ok])
  show "data_file (snd (add_book ttl auth yr self)) =
        Content (JList (map to_dict (books (snd (add_book ttl auth yr self)))))"
    by (simp add: add_book_ok [OF ok])
  show "printed (snd (add_book ttl auth yr self)) =
        printed self @ [Added ttl (book_id (last (books (snd (add_book ttl auth yr self)))))]"
    unfolding last_added by (simp add: add_book_ok [OF ok] Book_def)
next
  assume "\<not> list_all storable (books (snd (add_book ttl auth yr self)))"
  then have bad: "\<not> list_all storable (books self @ [Book (new_id self) ttl auth yr v_nalichii])"
    unfolding add_book_books .
  from add_book_raises_kind [OF bad]
  show "fst (add_book ttl auth yr self) = Inl ValueError \<or>
       fst (add_book ttl auth yr self) = Inl UnicodeEncodeError"
    and "data_file (snd (add_book ttl auth yr self)) = Unparseable"
    and "printed (snd (add_book ttl auth yr self)) = printed self"
    by simp_all
qed

theorem add_book_appends_witness:
  "list_all storable
     (books (snd (add_book [99] [100] (PInt 2023)
        \<lparr>books = [Book (PInt 1) [97] [98] (PInt 2024) v_nalichii],
         data_file = Missing, printed = []\<rparr>))) \<and>
   fst (add_book [99] [100] (PInt 2023)
        \<lparr>books = [Book (PInt 1) [97] [98] (PInt 2024) v_nalichii],
         data_file = Missing, printed = []\<rparr>) =
     Inr (Book (PInt 2) [99] [100] (PInt 2023) v_nalichii) \<and>
   \<not> list_all storable
     (books (snd (add_book [55296] [100] (PInt 2023)
        \<lparr>books = [Book (PInt 1) [97] [98] (PInt 2024) v_nalichii],
         data_file = Missing, printed = []\<rparr>))) \<and>
   data_file (snd (add_book [55296] [100] (PInt 2023)
        \<lparr>books = [Book (PInt 1) [97] [98] (PInt 2024) v_nalichii],
         data_file = Missing, printed = []\<rparr>)) = Unparseable"
proof -
  let ?L = "\<lparr>books = [Book (PInt 1) [97] [98] (PInt 2024) v_nalichii],
              data_file = Missing, printed = []\<rparr>"
  have n: "new_id ?L = PInt 2" by (simp add: new_id_def Book_def)
  have b1: "books (snd (add_book [99] [100] (PInt 2023) ?L)) =
      [Book (PInt 1) [97] [98] (PInt 2024) v_nalichii,
       Book (PInt 2) [99] [100] (PInt 2023) v_nalichii]"
    by (simp add: add_book_books n)
  have b2: "books (snd (add_book [55296] [100] (PInt 2023) ?L)) =
      [Book (PInt 1) [97] [98] (PInt 2024) v_nalichii,
       Book (PInt 2) [55296] [100] (PInt 2023) v_nalichii]"
    by (simp add: add_book_books n)
  have h1: "list_all storable (books (snd (add_book [99] [100] (PInt 2023) ?L)))"
    unfolding b1 by (simp add: storable_example)
  have h2: "\<not> list_all storable (books (snd (add_book [55296] [100] (PInt 2023) ?L)))"
    unfolding b2 by (simp add: storable_example)
  from add_book_appends [of "[99]" "[100]" "PInt 2023" ?L] h1
  have "fst (add_book [99] [100] (PInt 2023) ?L) =
      Inr (last (books (snd (add_book [99] [100] (PInt 2023) ?L))))"
    by blast
  then have r1: "fst (add_book [99] [100] (PInt 2023) ?L) =
      Inr (Book (PInt 2) [99] [100] (PInt 2023) v_nalichii)"
    unfolding b1 by simp
  from add_book_appends [of "[55296]" "[100]" "PInt 2023" ?L] h2
  have r2: "data_file (snd (add_book [55296] [100] (PInt 2023) ?L)) = Unparseable"
    by blast
  from h1 r1 h2 r2 show ?thesis by simp
qed

subsection \<open>C4: load\_books\<close>

text \<open>
  C4: \<^verbatim>\<open>load_books\<close> is to skip every entry that fails validation and return the
  valid ones. It does so for a file that holds a list of objects (lemma
  \<open>load_books_objects\<close>, which also gives the empty results for a missing and for an
  unparseable file). On an entry that is not an object the program does not skip:
  for the file \<^verbatim>\<open>[5]\<close>, \<^verbatim>\<open>validate_dict(5)\<close> evaluates \<^verbatim>\<open>"id" not in 5\<close>, which raises
  \<^verbatim>\<open>TypeError\<close>; neither \<^verbatim>\<open>except\<close> clause catches it, and the constructor of the
  library fails. The same happens for a file whose top-level value is a number.
\<close>

theorem load_books_non_object_entry:
  "load_books (Content (JList [JInt 5])) = ([], Inl TypeError) \<and>
   Library (Content (JList [JInt 5])) = Inl TypeError \<and>
   load_books (Content (JInt 5)) = ([], Inl TypeError)"
  by (simp add: Library_def validate_dict_def required_fields_def and_then_def json_load_def
      within_limit_def digits.simps int_max_str_digits_def)

subsection \<open>C5: update\_status\<close>



subsection \<open>C6: search\_books\<close>



subsection \<open>C7: saving and loading again\<close>

text \<open>
  C7, as the specification states it, does not hold for every catalog of well-typed
  records: when a title is a lone surrogate \<^verbatim>\<open>_save_books\<close> raises
  \<^verbatim>\<open>UnicodeEncodeError\<close> with the file left unparseable, and a library constructed from
  that file is empty.
\<close>

theorem save_then_load_counterexample:
  "status (Book (PInt 1) [55296] [98] (PInt 2024) v_nalichii) = v_nalichii \<and>
   save_books \<lparr>books = [Book (PInt 1) [55296] [98] (PInt 2024) v_nalichii],
               data_file = Missing, printed = []\<rparr> =
     (Inl UnicodeEncodeError,
      \<lparr>books = [Book (PInt 1) [55296] [98] (PInt 2024) v_nalichii],
       data_file = Unparseable, printed = []\<rparr>) \<and>
   Library (data_file (snd (save_books
       \<lparr>books = [Book (PInt 1) [55296] [98] (PInt 2024) v_nalichii],
        data_file = Missing, printed = []\<rparr>))) =
     Inr \<lparr>books = [], data_file = Unparseable, printed = [ReadError]\<rparr>"
  by (simp add: save_books_def to_dict_def Book_def encodable_def ascii_def within_limit_def
      digits.simps int_max_str_digits_def Library_def)

text \<open>
  C7, amended: for every library whose records have one of the two permitted statuses
  and can be written (texts encodable in UTF-8, ids and years within the digit limit),
  \<^verbatim>\<open>_save_books\<close> returns and a library constructed from the file it wrote has the same
  collection, record for record and in the same order, and prints nothing. When some
  record cannot be written, \<^verbatim>\<open>_save_books\<close> raises \<^verbatim>\<open>ValueError\<close> or
  \<^verbatim>\<open>UnicodeEncodeError\<close> and a library constructed from the file is empty. That a
  document written completely is read back as the value written is taken from
  \<^verbatim>\<open>json\<close>, see \<open>backend\<close>.
\<close>

theorem save_then_load:
  "(list_all passes_validate_dict (books self) \<and> list_all storable (books self) \<longrightarrow>
      fst (save_books self) = Inr () \<and>
      Library (data_file (snd (save_books self))) =
        Inr \<lparr>books = books self,
             data_file = Content (JList (map to_dict (books self))),
             printed = []\<rparr>) \<and>
   (\<not> list_all storable (books self) \<longrightarrow>
      (fst (save_books self) = Inl ValueError \<or>
       fst (save_books self) = Inl UnicodeEncodeError) \<and>
      Library (data_file (snd (save_books self))) =
        Inr \<lparr>books = [], data_file = Unparseable, printed = [ReadError]\<rparr>)"
proof (intro conjI impI)
  assume h: "list_all passes_validate_dict (books self) \<and> list_all storable (books self)"
  then have s: "save_books self =
      (Inr (), self\<lparr>data_file := Content (JList (map to_dict (books self)))\<rparr>)"
    using save_books_ok by blast
  from h have "\<forall>b\<in>set (books self). status b \<in> set valid_statuses"
    by (simp add: list_all_iff passes_validate_dict_iff valid_statuses_def)
  then have l: "load_loop (map to_dict (books self)) [] [] = ([], Inr (books self))"
    using load_loop_to_dict [of "books self" "[]" "[]"] by simp
  from h have small: "\<not> big_int_list (map to_dict (books self))"
    using big_int_books by blast
  show "fst (save_books self) = Inr ()" using s by simp
  show "Library (data_file (snd (save_books self))) =
        Inr \<lparr>books = books self,
             data_file = Content (JList (map to_dict (books self))),
             printed = []\<rparr>"
    using s l small by (simp add: Library_def json_load_def)
next
  assume h: "\<not> list_all storable (books self)"
  from save_books_raises_kind [OF h]
  show "fst (save_books self) = Inl ValueError \<or> fst (save_books self) = Inl UnicodeEncodeError"
    by auto
  from save_books_raises_kind [OF h]
  show "Library (data_file (snd (save_books self))) =
        Inr \<lparr>books = [], data_file = Unparseable, printed = [ReadError]\<rparr>"
    by (auto simp: Library_def)
qed

theorem save_then_load_witness:
  "list_all passes_validate_dict
     [Book (PInt 1) [97] [98] (PInt 2024) v_nalichii,
      Book (PBool True) [] [99] (PInt (- 3)) vydana] \<and>
   list_all storable
     [Book (PInt 1) [97] [98] (PInt 2024) v_nalichii,
      Book (PBool True) [] [99] (PInt (- 3)) vydana] \<and>
   Library (data_file (snd (save_books
       \<lparr>books = [Book (PInt 1) [97] [98] (PInt 2024) v_nalichii,
                 Book (PBool True) [] [99] (PInt (- 3)) vydana],
        data_file = Unparseable, printed = [ReadError]\<rparr>))) =
     Inr \<lparr>books = [Book (PInt 1) [97] [98] (PInt 2024) v_nalichii,
                    Book (PBool True) [] [99] (PInt (- 3)) vydana],
          data_file = Content (JList
            [to_dict (Book (PInt 1) [97] [98] (PInt 2024) v_nalichii),
             to_dict (Book (PBool True) [] [99] (PInt (- 3)) vydana)]),
          printed = []\<rparr> \<and>
   \<not> list_all storable [Book (PInt 1) [55296] [98] (PInt 2024) v_nalichii] \<and>
   Library (data_file (snd (save_books
       \<lparr>books = [Book (PInt 1) [55296] [98] (PInt 2024) v_nalichii],
        data_file = Missing, printed = []\<rparr>))) =
     Inr \<lparr>books = [], data_file = Unparseable, printed = [ReadError]\<rparr>"
proof -
  let ?L = "\<lparr>books = [Book (PInt 1) [97] [98] (PInt 2024) v_nalichii,
                       Book (PBool True) [] [99] (PInt (- 3)) vydana],
              data_file = Unparseable, printed = [ReadError]\<rparr>"
  let ?M = "\<lparr>books = [Book (PInt 1) [55296] [98] (PInt 2024) v_nalichii],
              data_file = Missing, printed = []\<rparr>"
  have h1: "list_all passes_validate_dict (books ?L)"
    by (simp add: passes_validate_dict_iff Book_def)
  have h2: "list_all storable (books ?L)"
    by (simp add: storable_def Book_def encodable_def v_nalichii_def vydana_def
        within_limit_def digits.simps int_max_str_digits_def)
  have h3: "\<not> list_all storable (books ?M)"
    by (simp add: storable_def Book_def encodable_def)
  from save_then_load [of ?L] h1 h2
  have r1: "Library (data_file (snd (save_books ?L))) =
      Inr \<lparr>books = books ?L, data_file = Content (JList (map to_dict (books ?L))),
           printed = []\<rparr>"
    by blast
  from save_then_load [of ?M] h3
  have r2: "Library (data_file (snd (save_books ?M))) =
      Inr \<lparr>books = [], data_file = Unparseable, printed = [ReadError]\<rparr>"
    by blast
  from h1 h2 h3 r1 r2 show ?thesis by simp
qed

subsection \<open>C8: to\_dict and from\_dict\<close>

text \<open>
  C8: for every record \<open>r\<close> (valid or not), \<^verbatim>\<open>from_dict(r.to_dict())\<close> is \<open>r\<close>; the
  keys of the serialised form are exactly \<^verbatim>\<open>id\<close>, \<^verbatim>\<open>title\<close>, \<^verbatim>\<open>author\<close>, \<^verbatim>\<open>year\<close>
  and \<^verbatim>\<open>status\<close>, each holding the field of that name.
\<close>

theorem book_roundtrip:
  "from_dict (to_dict r) = Inr r \<and>
   py_iter (to_dict r) =
     Inr [JStr (ascii ''id''), JStr (ascii ''title''), JStr (ascii ''author''),
          JStr (ascii ''year''), JStr (ascii ''status'')] \<and>
   py_getitem (to_dict r) (ascii ''id'') = Inr (json_of_pyint (book_id r)) \<and>
   py_getitem (to_dict r) (ascii ''title'') = Inr (JStr (title r)) \<and>
   py_getitem (to_dict r) (ascii ''author'') = Inr (JStr (author r)) \<and>
   py_getitem (to_dict r) (ascii ''year'') = Inr (json_of_pyint (year r)) \<and>
   py_getitem (to_dict r) (ascii ''status'') = Inr (JStr (status r))"
proof -
  have "py_iter (to_dict r) =
     Inr [JStr (ascii ''id''), JStr (ascii ''title''), JStr (ascii ''author''),
          JStr (ascii ''year''), JStr (ascii ''status'')]"
    by (simp add: to_dict_def)
  moreover have "from_dict (to_dict r) = Inr r"
    by (simp add: from_dict_def getitem_to_dict and_then_def as_int_json_of_pyint Book_def)
  ultimately show ?thesis by (simp add: getitem_to_dict)
qed

subsection \<open>C9: find\_books\<close>

text \<open>
  C9, as the specification states it, does not hold: on an empty catalog
  \<^verbatim>\<open>find_books()\<close> returns \<^verbatim>\<open>None\<close>, not an empty sequence (\<^verbatim>\<open>if not books: return
  None\<close>).
\<close>

theorem find_books_empty_counterexample:
  "find_books None \<lparr>books = [], data_file = Missing, printed = []\<rparr> = None \<and>
   find_books None \<lparr>books = [], data_file = Missing, printed = []\<rparr> \<noteq> Some []"
  by (simp add: find_books_def)

text \<open>
  C9, amended: \<^verbatim>\<open>find_books()\<close> returns the whole collection, in collection order,
  when the catalog is not empty, and \<^verbatim>\<open>None\<close> when it is empty.
\<close>

theorem find_books_all:
  "find_books None self = (if books self = [] then None else Some (books self))"
  by (simp add: find_books_def)

subsection \<open>C10: find\_book\_by\_id\<close>

text \<open>
  C10: for every collection, also one in which several records have the same id,
  \<^verbatim>\<open>find_book_by_id\<close> returns the first record, in collection order, whose id equals
  the given one, and \<^verbatim>\<open>None\<close> exactly when no record of the collection has that id
  (lemma \<open>find_book_by_id_duplicates\<close> is an instance with two records of id 7).
\<close>

theorem find_book_by_id_first:
  "find_book_by_id bid self =
     (case with_id bid (books self) of [] \<Rightarrow> None | b # rest \<Rightarrow> Some b) \<and>
   (find_book_by_id bid self = None) =
     (int_of bid \<notin> (\<lambda>b. int_of (book_id b)) ` set (books self))"
  unfolding find_book_by_id_def
  using next_with_id_filter [of bid "books self"] next_with_id_None [of bid "books self"]
  by simp

end
